theory Spec2Isabelle
  imports Main "HOL-Library.Sublist"
begin

section \<open>Reflected types and values\<close>

text \<open>
  The repository works on arbitrary Go records through the \<^verbatim>\<open>reflect\<close> package.  The
  embedding keeps the part of a reflected value the code looks at: the kind, the fields of
  a struct with their descriptors (\<^verbatim>\<open>reflect.StructField\<close>: name, package path of an
  unexported field, the embedded flag and the tag), nil and non-nil pointers and slices, and
  arrays.  Scalars are strings, integers and booleans.  Interface-typed fields, maps,
  channels and functions are outside the model, named scalar types are their kind, and
  strings are ASCII.  A pointer owns its pointee (no two pointers of one record alias).

  A struct tag is the list of its \<^verbatim>\<open>key:"value"\<close> pairs
  (\<^verbatim>\<open>StructTag.Lookup\<close> is a lookup in it).
\<close>

record fmeta =
  Name :: string
  PkgPath :: string
  Anonymous :: bool
  Tag :: "(string \<times> string) list"

datatype ty =
    TString
  | TInt
  | TBool
  | TPtr ty
  | TSlice ty
  | TArray nat ty
  | TStruct string "(fmeta \<times> ty) list"

datatype val =
    VString string
  | VInt int
  | VBool bool
  | VNilPtr ty
  | VPtr val
  | VNilSlice ty
  | VSlice ty "val list"
  | VArray ty "val list"
  | VStruct string "(fmeta \<times> val) list"

fun typeOf :: "val \<Rightarrow> ty" where
  "typeOf (VString s) = TString"
| "typeOf (VInt i) = TInt"
| "typeOf (VBool b) = TBool"
| "typeOf (VNilPtr t) = TPtr t"
| "typeOf (VPtr v) = TPtr (typeOf v)"
| "typeOf (VNilSlice t) = TSlice t"
| "typeOf (VSlice t xs) = TSlice t"
| "typeOf (VArray t xs) = TArray (length xs) t"
| "typeOf (VStruct n fs) = TStruct n (map (\<lambda>f. (fst f, typeOf (snd f))) fs)"

text \<open>\<^verbatim>\<open>reflect.Zero\<close>: the zero value of a type.\<close>

fun zeroOf :: "ty \<Rightarrow> val" where
  "zeroOf TString = VString []"
| "zeroOf TInt = VInt 0"
| "zeroOf TBool = VBool False"
| "zeroOf (TPtr t) = VNilPtr t"
| "zeroOf (TSlice t) = VNilSlice t"
| "zeroOf (TArray n t) = VArray t (replicate n (zeroOf t))"
| "zeroOf (TStruct n fs) = VStruct n (map (\<lambda>f. (fst f, zeroOf (snd f))) fs)"

text \<open>\<^verbatim>\<open>Value.IsZero\<close>: a pointer or slice is zero when nil, an array or struct
  when every element or field is.\<close>

fun isZero :: "val \<Rightarrow> bool" where
  "isZero (VString s) = (s = [])"
| "isZero (VInt i) = (i = 0)"
| "isZero (VBool b) = (\<not> b)"
| "isZero (VNilPtr t) = True"
| "isZero (VPtr v) = False"
| "isZero (VNilSlice t) = True"
| "isZero (VSlice t xs) = False"
| "isZero (VArray t xs) = list_all isZero xs"
| "isZero (VStruct n fs) = list_all (\<lambda>f. isZero (snd f)) fs"

fun isStructT :: "ty \<Rightarrow> bool" where
  "isStructT (TStruct n fs) = True"
| "isStructT _ = False"

fun fieldsT :: "ty \<Rightarrow> (fmeta \<times> ty) list" where
  "fieldsT (TStruct n fs) = fs"
| "fieldsT _ = []"

text \<open>\<^verbatim>\<open>Type.Name\<close>: the name of a defined type, empty for a composite type
  literal.\<close>

fun tyName :: "ty \<Rightarrow> string" where
  "tyName TString = ''string''"
| "tyName TInt = ''int''"
| "tyName TBool = ''bool''"
| "tyName (TStruct n fs) = n"
| "tyName _ = []"

text \<open>The two ways a Go call ends here: it returns, or it panics.\<close>

datatype 'a outcome = Panicked | Returned 'a

section \<open>Tags: \<^verbatim>\<open>internal/tags.go\<close>\<close>

text \<open>\<^verbatim>\<open>strings.Split(s, ",")\<close> for a one-character separator: always at least one
  segment.\<close>

fun splitOn :: "char \<Rightarrow> string \<Rightarrow> string list" where
  "splitOn sep [] = [[]]"
| "splitOn sep (c # cs) =
     (if c = sep then [] # splitOn sep cs
      else (case splitOn sep cs of
              [] \<Rightarrow> [[c]]
            | seg # segs \<Rightarrow> (c # seg) # segs))"

definition neo4jTag :: string where
  "neo4jTag = ''neo4j''"

record neo4jName =
  name :: string
  concrete :: bool

record PropTag =
  PTName :: string
  Flatten :: bool
  Ignore :: bool
  TagKey :: string
  RawOpts :: "string list"

text \<open>\<^verbatim>\<open>ParsePropTag\<close>.  The loop over the options sets \<^verbatim>\<open>Flatten\<close> as soon as one
  option is the token \<^verbatim>\<open>flatten\<close>.\<close>

definition ParsePropTag :: "string \<Rightarrow> string \<Rightarrow> PropTag" where
  "ParsePropTag key raw =
     (let parts = splitOn CHR '','' raw;
          nm = hd parts;
          opts = (if length parts > 1 then tl parts else []);
          t = \<lparr>PTName = nm, Flatten = False, Ignore = False, TagKey = key, RawOpts = opts\<rparr>
      in if nm = ''-'' then t\<lparr>Ignore := True\<rparr>
         else foldl (\<lambda>t o'. if o' = ''flatten'' then t\<lparr>Flatten := True\<rparr> else t) t opts)"

text \<open>\<^verbatim>\<open>PropTagForField\<close>: the \<^verbatim>\<open>db\<close> key before the \<^verbatim>\<open>json\<close> key.\<close>

definition PropTagForField :: "fmeta \<Rightarrow> PropTag option" where
  "PropTagForField sf =
     (case map_of (Tag sf) ''db'' of
        Some raw \<Rightarrow> Some (ParsePropTag ''db'' raw)
      | None \<Rightarrow>
          (case map_of (Tag sf) ''json'' of
             Some raw \<Rightarrow> Some (ParsePropTag ''json'' raw)
           | None \<Rightarrow> None))"

definition JoinPrefix :: "string \<Rightarrow> string \<Rightarrow> string" where
  "JoinPrefix pfx nm = (if pfx = [] then nm else pfx @ ''_'' @ nm)"

text \<open>\<^verbatim>\<open>ValidateFlattenType\<close>: through every pointer, the type must be a struct.\<close>

fun ValidateFlattenType :: "ty \<Rightarrow> bool" where
  "ValidateFlattenType (TPtr t) = ValidateFlattenType t"
| "ValidateFlattenType (TStruct n fs) = True"
| "ValidateFlattenType _ = False"

subsection \<open>Label extraction\<close>

text \<open>
  The closure \<^verbatim>\<open>extractTagFromMatch\<close> of \<^verbatim>\<open>extractNeo4JName\<close> turns one embedded
  field into at most one entry.  The traversal is written over any such handler, and the
  code's handler is \<open>extractTagFromMatch\<close>.
\<close>

definition extractTagFromMatch :: "fmeta \<times> ty \<Rightarrow> neo4jName option" where
  "extractTagFromMatch match =
     (case map_of (Tag (fst match)) neo4jTag of
        None \<Rightarrow> None
      | Some label \<Rightarrow>
          Some \<lparr>name = hd (splitOn CHR '','' label),
                concrete = (tyName (snd match) \<noteq> ''Label'')\<rparr>)"

text \<open>The handler that keeps, beside the label, the name of the composed type that
  contributed it.\<close>

definition labelWithType :: "fmeta \<times> ty \<Rightarrow> (string \<times> string) option" where
  "labelWithType match =
     (case map_of (Tag (fst match)) neo4jTag of
        None \<Rightarrow> None
      | Some label \<Rightarrow> Some (hd (splitOn CHR '','' label), tyName (snd match)))"

fun tsize :: "ty \<Rightarrow> nat" where
  "tsize (TPtr t) = Suc (tsize t)"
| "tsize (TSlice t) = Suc (tsize t)"
| "tsize (TArray n t) = Suc (tsize t)"
| "tsize (TStruct n fs) = Suc (sum_list (map (\<lambda>f. tsize (snd f)) fs))"
| "tsize _ = 1"

definition embeddedStructs :: "ty \<Rightarrow> (fmeta \<times> ty) list" where
  "embeddedStructs v = filter (\<lambda>f. Anonymous (fst f) \<and> isStructT (snd f)) (fieldsT v)"

text \<open>
  The queue loop of \<^verbatim>\<open>extractNeo4JName\<close>: take the first type of the queue, and for each
  of its fields that is embedded and of struct kind, append the field's type to the queue
  and run the handler on the field.  Only struct types enter the queue.
\<close>

function bfs :: "(fmeta \<times> ty \<Rightarrow> 'a option) \<Rightarrow> ty list \<Rightarrow> 'a list" where
  "bfs h [] = []"
| "bfs h (v # queue) =
     List.map_filter h (embeddedStructs v) @ bfs h (queue @ map snd (embeddedStructs v))"
  by pat_completeness auto
termination
proof (relation "measure (\<lambda>p. sum_list (map tsize (snd p)))")
  show "wf (measure (\<lambda>p. sum_list (map tsize (snd p))))" by simp
next
  fix h :: "fmeta \<times> ty \<Rightarrow> 'a option" and v queue
  have le: "sum_list (map (\<lambda>f. tsize (snd f)) (filter P fs))
        \<le> sum_list (map (\<lambda>f. tsize (snd f)) fs)" for P and fs :: "(fmeta \<times> ty) list"
    by (induction fs) auto
  have "sum_list (map (\<lambda>f. tsize (snd f)) (embeddedStructs v)) < tsize v"
  proof (cases v)
    case (TStruct n fs)
    then show ?thesis using le [of _ fs] by (simp add: embeddedStructs_def less_Suc_eq_le)
  qed (simp_all add: embeddedStructs_def)
  then have "sum_list (map tsize (map snd (embeddedStructs v))) < tsize v"
    by (simp add: comp_def)
  then show "((h, queue @ map snd (embeddedStructs v)), (h, v # queue))
        \<in> measure (\<lambda>p. sum_list (map tsize (snd p)))"
    by simp
qed

fun derefT :: "ty \<Rightarrow> ty" where
  "derefT (TPtr t) = derefT t"
| "derefT t = t"

text \<open>
  \<^verbatim>\<open>extractNeo4JName\<close> as its two callers use it (no field names given): the argument's
  type through every pointer must be a struct, else an error; the entries of the traversal
  are reversed.  \<open>None\<close> is the error.
\<close>

definition extractNeo4JNameWith :: "(fmeta \<times> ty \<Rightarrow> 'a option) \<Rightarrow> val \<Rightarrow> 'a list option" where
  "extractNeo4JNameWith h instance =
     (let v = derefT (typeOf instance)
      in if \<not> isStructT v then None else Some (rev (bfs h [v])))"

definition extractNeo4JName :: "val \<Rightarrow> neo4jName list option" where
  "extractNeo4JName = extractNeo4JNameWith extractTagFromMatch"

text \<open>
  Whether a type satisfies the interface \<^verbatim>\<open>INode\<close> or \<^verbatim>\<open>IRelationship\<close> depends on
  method sets declared outside these files, so it is a parameter \<open>impl\<close> of the extractors.

  The pointer loop of \<^verbatim>\<open>extractNodeLabels\<close>: \<open>Inl n\<close> when a pointee \<open>n\<close> satisfies the
  interface, \<open>Inr v\<close> when the loop ends at the non-pointer \<open>v\<close>; \<^verbatim>\<open>Interface\<close> on the
  pointee of a nil pointer panics.
\<close>

fun ptrLoop :: "(ty \<Rightarrow> bool) \<Rightarrow> val \<Rightarrow> (val + val) outcome" where
  "ptrLoop impl (VPtr w) = (if impl (typeOf w) then Returned (Inl w) else ptrLoop impl w)"
| "ptrLoop impl (VNilPtr t) = Panicked"
| "ptrLoop impl v = Returned (Inr v)"

fun elemOfSeq :: "ty \<Rightarrow> ty option" where
  "elemOfSeq (TSlice t) = Some t"
| "elemOfSeq (TArray n t) = Some t"
| "elemOfSeq _ = None"

text \<open>\<^verbatim>\<open>extractNodeLabels\<close>; the argument \<open>None\<close> is the nil interface, the result
  \<open>None\<close> the nil slice.\<close>

function extractNodeLabelsWith ::
  "(fmeta \<times> ty \<Rightarrow> 'a option) \<Rightarrow> (ty \<Rightarrow> bool) \<Rightarrow> val option \<Rightarrow> 'a list option outcome" where
  "extractNodeLabelsWith h impl None = Returned None"
| "extractNodeLabelsWith h impl (Some i) =
     (if \<not> impl (typeOf i) then
        (case ptrLoop impl i of
           Panicked \<Rightarrow> Panicked
         | Returned (Inl n) \<Rightarrow> extractNodeLabelsWith h impl (Some n)
         | Returned (Inr v) \<Rightarrow>
             (case elemOfSeq (typeOf v) of
                Some t \<Rightarrow> extractNodeLabelsWith h impl (Some (zeroOf t))
              | None \<Rightarrow> Returned None))
      else Returned (extractNeo4JNameWith h i))"
  by pat_completeness auto
termination
proof (relation "measure (\<lambda>p. case snd (snd p) of None \<Rightarrow> 0 | Some v \<Rightarrow> tsize (typeOf v))")
  show "wf (measure (\<lambda>p. case snd (snd p) of None \<Rightarrow> 0 | Some v \<Rightarrow> tsize (typeOf v)))"
    by simp
next
  fix h :: "fmeta \<times> ty \<Rightarrow> 'a option" and impl i x2 n
  assume "\<not> impl (typeOf i)" and "ptrLoop impl i = Returned x2" and "x2 = Inl n"
  then have r: "ptrLoop impl i = Returned (Inl n)" by simp
  have "ptrLoop impl u = Returned (Inl m) \<Longrightarrow> tsize (typeOf m) < tsize (typeOf u)" for u m
    by (induction impl u rule: ptrLoop.induct) (auto split: if_splits)
  from this [OF r]
  show "((h, impl, Some n), (h, impl, Some i))
        \<in> measure (\<lambda>p. case snd (snd p) of None \<Rightarrow> 0 | Some v \<Rightarrow> tsize (typeOf v))"
    by simp
next
  fix h :: "fmeta \<times> ty \<Rightarrow> 'a option" and impl i x2 v t
  assume "\<not> impl (typeOf i)" and "ptrLoop impl i = Returned x2" and "x2 = Inr v"
    and e: "elemOfSeq (typeOf v) = Some t"
  then have r: "ptrLoop impl i = Returned (Inr v)" by simp
  have "ptrLoop impl u = Returned (Inr m) \<Longrightarrow> tsize (typeOf m) \<le> tsize (typeOf u)" for u m
    by (induction impl u rule: ptrLoop.induct) (auto split: if_splits)
  from this [OF r] have a: "tsize (typeOf v) \<le> tsize (typeOf i)" .
  have z: "typeOf (zeroOf s) = s" for s
    by (induction s) (auto simp: comp_def intro!: map_idI)
  from e have "tsize t < tsize (typeOf v)"
    by (cases "typeOf v") auto
  with a z show "((h, impl, Some (zeroOf t)), (h, impl, Some i))
        \<in> measure (\<lambda>p. case snd (snd p) of None \<Rightarrow> 0 | Some v \<Rightarrow> tsize (typeOf v))"
    by simp
qed

definition extractNodeLabels :: "(ty \<Rightarrow> bool) \<Rightarrow> val option \<Rightarrow> neo4jName list option outcome" where
  "extractNodeLabels = extractNodeLabelsWith extractTagFromMatch"

definition ExtractNodeLabels :: "(ty \<Rightarrow> bool) \<Rightarrow> val option \<Rightarrow> string list option outcome" where
  "ExtractNodeLabels impl i =
     (case extractNodeLabels impl i of
        Panicked \<Rightarrow> Panicked
      | Returned None \<Rightarrow> Returned None
      | Returned (Some labels) \<Rightarrow> Returned (Some (map name labels)))"

definition ExtractConcreteNodeLabels :: "(ty \<Rightarrow> bool) \<Rightarrow> val option \<Rightarrow> string list option outcome" where
  "ExtractConcreteNodeLabels impl i =
     (case extractNodeLabels impl i of
        Panicked \<Rightarrow> Panicked
      | Returned None \<Rightarrow> Returned None
      | Returned (Some labels) \<Rightarrow>
          Returned (Some (foldl (\<lambda>out l. if concrete l then out @ [name l] else out) [] labels)))"

text \<open>The pointer loop of \<^verbatim>\<open>ExtractRelationshipType\<close>: the pointee of a nil pointer is the
  invalid value (\<open>None\<close>), whose kind is no pointer, slice or array.\<close>

fun derefV :: "val \<Rightarrow> val option" where
  "derefV (VPtr w) = derefV w"
| "derefV (VNilPtr t) = None"
| "derefV v = Some v"

function ExtractRelationshipType :: "(ty \<Rightarrow> bool) \<Rightarrow> val option \<Rightarrow> string outcome" where
  "ExtractRelationshipType impl None = Returned []"
| "ExtractRelationshipType impl (Some relationship) =
     (if \<not> impl (typeOf relationship) then
        (case derefV relationship of
           None \<Rightarrow> Returned []
         | Some v \<Rightarrow>
             (case elemOfSeq (typeOf v) of
                Some t \<Rightarrow> ExtractRelationshipType impl (Some (zeroOf t))
              | None \<Rightarrow> Returned []))
      else
        (case extractNeo4JName relationship of
           None \<Rightarrow> Returned []
         | Some tags \<Rightarrow>
             if length tags > 1 then Panicked
             else if length tags = 0 then Returned []
             else Returned (name (tags ! 0))))"
  by pat_completeness auto
termination
proof (relation "measure (\<lambda>p. case snd p of None \<Rightarrow> 0 | Some v \<Rightarrow> tsize (typeOf v))")
  show "wf (measure (\<lambda>p. case snd p of None \<Rightarrow> 0 | Some v \<Rightarrow> tsize (typeOf v)))"
    by simp
next
  fix impl relationship v t
  assume "\<not> impl (typeOf relationship)" and r: "derefV relationship = Some v"
    and e: "elemOfSeq (typeOf v) = Some t"
  have "derefV u = Some m \<Longrightarrow> tsize (typeOf m) \<le> tsize (typeOf u)" for u m
    by (induction u rule: derefV.induct) auto
  from this [OF r] have a: "tsize (typeOf v) \<le> tsize (typeOf relationship)" .
  have z: "typeOf (zeroOf s) = s" for s
    by (induction s) (auto simp: comp_def intro!: map_idI)
  from e have "tsize t < tsize (typeOf v)"
    by (cases "typeOf v") auto
  with a z show "((impl, Some (zeroOf t)), (impl, Some relationship))
        \<in> measure (\<lambda>p. case snd p of None \<Rightarrow> 0 | Some v \<Rightarrow> tsize (typeOf v))"
    by simp
qed

section \<open>Property flattening: \<^verbatim>\<open>props.go\<close>\<close>

datatype propsError =
    NotAStruct
  | FlattenNotStruct
  | DuplicateKey string

type_synonym props = "string \<rightharpoonup> val"

fun isNilPtr :: "val \<Rightarrow> bool" where
  "isNilPtr (VNilPtr t) = True"
| "isNilPtr _ = False"

text \<open>\<^verbatim>\<open>derefAll\<close>: through every pointer; the invalid value (\<open>None\<close>) at a nil one.\<close>

fun derefAll :: "val \<Rightarrow> val option" where
  "derefAll (VPtr w) = derefAll w"
| "derefAll (VNilPtr t) = None"
| "derefAll v = Some v"

text \<open>The name a tagged field contributes: the tag's name, or the default name of the
  field when the tag gives none.  \<^verbatim>\<open>DefaultPropName\<close> is \<^verbatim>\<open>strcase.ToLowerCamel\<close>, a
  library outside the repository: the parameter \<open>lowerCamel\<close>.\<close>

definition propName :: "(string \<Rightarrow> string) \<Rightarrow> PropTag \<Rightarrow> fmeta \<Rightarrow> string" where
  "propName lowerCamel tag ft = (if PTName tag = [] then lowerCamel (Name ft) else PTName tag)"

text \<open>
  \<^verbatim>\<open>collectProps\<close> and its loop over the fields, \<open>collectFields\<close>.  The first three
  equations of \<open>collectProps\<close> are \<^verbatim>\<open>derefAll\<close> followed by the test for a valid struct.
  The property map is threaded through, an error ends the walk.  The declared type of a
  field is the type of the value it holds.
\<close>

fun collectProps :: "(string \<Rightarrow> string) \<Rightarrow> val \<Rightarrow> string \<Rightarrow> props \<Rightarrow> propsError + props"
  and collectFields ::
    "(string \<Rightarrow> string) \<Rightarrow> (fmeta \<times> val) list \<Rightarrow> string \<Rightarrow> props \<Rightarrow> propsError + props" where
  "collectProps lowerCamel (VPtr w) pfx props = collectProps lowerCamel w pfx props"
| "collectProps lowerCamel (VStruct n fs) pfx props = collectFields lowerCamel fs pfx props"
| "collectProps lowerCamel (VNilPtr t) pfx props = Inr props"
| "collectProps lowerCamel (VString s) pfx props = Inr props"
| "collectProps lowerCamel (VInt i) pfx props = Inr props"
| "collectProps lowerCamel (VBool b) pfx props = Inr props"
| "collectProps lowerCamel (VNilSlice t) pfx props = Inr props"
| "collectProps lowerCamel (VSlice t xs) pfx props = Inr props"
| "collectProps lowerCamel (VArray t xs) pfx props = Inr props"
| "collectFields lowerCamel [] pfx props = Inr props"
| "collectFields lowerCamel (f # rest) pfx props =
     (let ft = fst f; fv = snd f in
      if PkgPath ft \<noteq> [] then collectFields lowerCamel rest pfx props
      else
        (case PropTagForField ft of
           None \<Rightarrow>
             if Anonymous ft then
               (case collectProps lowerCamel fv pfx props of
                  Inl err \<Rightarrow> Inl err
                | Inr props' \<Rightarrow> collectFields lowerCamel rest pfx props')
             else collectFields lowerCamel rest pfx props
         | Some tag \<Rightarrow>
             if Ignore tag then collectFields lowerCamel rest pfx props
             else if Flatten tag then
               (if \<not> ValidateFlattenType (typeOf fv) then Inl FlattenNotStruct
                else if isNilPtr fv then collectFields lowerCamel rest pfx props
                else if isZero fv then collectFields lowerCamel rest pfx props
                else
                  (case collectProps lowerCamel fv
                          (JoinPrefix pfx (propName lowerCamel tag ft)) props of
                     Inl err \<Rightarrow> Inl err
                   | Inr props' \<Rightarrow> collectFields lowerCamel rest pfx props'))
             else if isZero fv then collectFields lowerCamel rest pfx props
             else
               (let key = JoinPrefix pfx (propName lowerCamel tag ft)
                in if props key \<noteq> None then Inl (DuplicateKey key)
                   else collectFields lowerCamel rest pfx (props(key \<mapsto> fv)))))"

text \<open>\<^verbatim>\<open>PropsFromStruct\<close>: a nil pointer gives the empty map, a value that is no struct
  an error.\<close>

fun PropsFromStruct :: "(string \<Rightarrow> string) \<Rightarrow> val \<Rightarrow> propsError + props" where
  "PropsFromStruct lowerCamel (VPtr w) = PropsFromStruct lowerCamel w"
| "PropsFromStruct lowerCamel (VNilPtr t) = Inr Map.empty"
| "PropsFromStruct lowerCamel (VStruct n fs) =
     collectProps lowerCamel (VStruct n fs) [] Map.empty"
| "PropsFromStruct lowerCamel v = Inl NotAStruct"

text \<open>
  The keys the walk of \<^verbatim>\<open>collectProps\<close> produces, in the order of the walk, and whether
  the walk went through (\<open>False\<close> when a flatten field of a type that is no struct stopped
  it).  It follows the rules of the serializer field by field and looks at no map.
\<close>

fun producedKeys :: "(string \<Rightarrow> string) \<Rightarrow> val \<Rightarrow> string \<Rightarrow> string list \<times> bool"
  and producedKeysFields ::
    "(string \<Rightarrow> string) \<Rightarrow> (fmeta \<times> val) list \<Rightarrow> string \<Rightarrow> string list \<times> bool" where
  "producedKeys lowerCamel (VPtr w) pfx = producedKeys lowerCamel w pfx"
| "producedKeys lowerCamel (VStruct n fs) pfx = producedKeysFields lowerCamel fs pfx"
| "producedKeys lowerCamel (VNilPtr t) pfx = ([], True)"
| "producedKeys lowerCamel (VString s) pfx = ([], True)"
| "producedKeys lowerCamel (VInt i) pfx = ([], True)"
| "producedKeys lowerCamel (VBool b) pfx = ([], True)"
| "producedKeys lowerCamel (VNilSlice t) pfx = ([], True)"
| "producedKeys lowerCamel (VSlice t xs) pfx = ([], True)"
| "producedKeys lowerCamel (VArray t xs) pfx = ([], True)"
| "producedKeysFields lowerCamel [] pfx = ([], True)"
| "producedKeysFields lowerCamel (f # rest) pfx =
     (let ft = fst f; fv = snd f;
          here =
            (if PkgPath ft \<noteq> [] then ([], True)
             else
               (case PropTagForField ft of
                  None \<Rightarrow> if Anonymous ft then producedKeys lowerCamel fv pfx else ([], True)
                | Some tag \<Rightarrow>
                    if Ignore tag then ([], True)
                    else if Flatten tag then
                      (if \<not> ValidateFlattenType (typeOf fv) then ([], False)
                       else if isZero fv then ([], True)
                       else producedKeys lowerCamel fv
                              (JoinPrefix pfx (propName lowerCamel tag ft)))
                    else if isZero fv then ([], True)
                    else ([JoinPrefix pfx (propName lowerCamel tag ft)], True)))
      in if snd here
         then (fst here @ fst (producedKeysFields lowerCamel rest pfx),
               snd (producedKeysFields lowerCamel rest pfx))
         else here)"

section \<open>Locale hooks: \<^verbatim>\<open>hooks.go\<close>\<close>

text \<open>
  A locale hook works in place on the fields of one struct.  The embedding passes the
  field list through the loop and returns it updated.  A reference to a field reached
  through a pointer is the index of the field and the flag that it was dereferenced; writing
  through it rebuilds the pointer around the new pointee.

  \<^verbatim>\<open>FieldByName\<close> is modelled on the fields a struct declares itself (fields promoted
  from an embedded struct are not looked up).  Whether and how \<^verbatim>\<open>reflect\<close> converts a
  value to a different type is the parameter \<open>conv\<close> (\<open>None\<close>: not convertible); a value
  is assignable to a type when it has that type.
\<close>

definition hasSuffix :: "string \<Rightarrow> string \<Rightarrow> bool" where
  "hasSuffix s suf = (length suf \<le> length s \<and> drop (length s - length suf) s = suf)"

definition localeBaseName :: "string \<Rightarrow> string option" where
  "localeBaseName fieldName =
     (if hasSuffix fieldName ''Locales''
        then Some (take (length fieldName - length ''Locales'') fieldName)
      else if hasSuffix fieldName ''Locale''
        then Some (take (length fieldName - length ''Locale'') fieldName)
      else None)"

text \<open>\<^verbatim>\<open>unicode.ToLower\<close> on ASCII.\<close>

definition toLowerAscii :: "char \<Rightarrow> char" where
  "toLowerAscii c =
     (case map_of (zip ''ABCDEFGHIJKLMNOPQRSTUVWXYZ'' ''abcdefghijklmnopqrstuvwxyz'') c of
        Some l \<Rightarrow> l
      | None \<Rightarrow> c)"

fun lcFirst :: "string \<Rightarrow> string" where
  "lcFirst [] = []"
| "lcFirst (c # cs) = toLowerAscii c # cs"

fun fieldIndex :: "(fmeta \<times> 'a) list \<Rightarrow> string \<Rightarrow> nat option" where
  "fieldIndex [] nm = None"
| "fieldIndex (f # fs) nm =
     (if Name (fst f) = nm then Some 0
      else (case fieldIndex fs nm of None \<Rightarrow> None | Some k \<Rightarrow> Some (Suc k)))"

definition setField :: "(fmeta \<times> val) list \<Rightarrow> nat \<Rightarrow> val \<Rightarrow> (fmeta \<times> val) list" where
  "setField fs k v = fs[k := (fst (fs ! k), v)]"

text \<open>Writing through a reference: into the field itself, or into the pointee of the
  pointer it holds.\<close>

definition writeRef :: "(fmeta \<times> val) list \<Rightarrow> nat \<Rightarrow> bool \<Rightarrow> val \<Rightarrow> (fmeta \<times> val) list" where
  "writeRef fs k viaPtr v = setField fs k (if viaPtr then VPtr v else v)"

text \<open>
  \<^verbatim>\<open>assignValue\<close>.  The result is the new value of the destination, or \<open>None\<close> for
  \<^verbatim>\<open>false\<close>.  \<open>srcRO\<close> says that the source was read from an unexported field:
  \<^verbatim>\<open>Value.Set\<close> panics on such a source.
\<close>

definition assignValue ::
  "(val \<Rightarrow> ty \<Rightarrow> val option) \<Rightarrow> bool \<Rightarrow> bool \<Rightarrow> val \<Rightarrow> val \<Rightarrow> val option outcome" where
  "assignValue conv dstCanSet srcRO dst src =
     (if \<not> dstCanSet then Returned None
      else if typeOf src = typeOf dst then (if srcRO then Panicked else Returned (Some src))
      else
        (case conv src (typeOf dst) of
           Some v \<Rightarrow> (if srcRO then Panicked else Returned (Some v))
         | None \<Rightarrow> Returned None))"

fun firstPreferredLocaleValue :: "(fmeta \<times> val) list \<Rightarrow> string list \<Rightarrow> (fmeta \<times> val) option" where
  "firstPreferredLocaleValue lfs [] = None"
| "firstPreferredLocaleValue lfs (key # keys) =
     (case fieldIndex lfs key of
        None \<Rightarrow> firstPreferredLocaleValue lfs keys
      | Some k \<Rightarrow>
          if isZero (snd (lfs ! k)) then firstPreferredLocaleValue lfs keys
          else Some (lfs ! k))"

text \<open>The second loop of \<^verbatim>\<open>setBaseFromLocale\<close>: the fields in declaration order.\<close>

fun baseFromFields ::
  "(val \<Rightarrow> ty \<Rightarrow> val option) \<Rightarrow> val \<Rightarrow> (fmeta \<times> val) list \<Rightarrow> val option outcome" where
  "baseFromFields conv b [] = Returned None"
| "baseFromFields conv b (f # rest) =
     (if isZero (snd f) then baseFromFields conv b rest
      else
        (case assignValue conv True (PkgPath (fst f) \<noteq> []) b (snd f) of
           Panicked \<Rightarrow> Panicked
         | Returned (Some v) \<Rightarrow> Returned (Some v)
         | Returned None \<Rightarrow> baseFromFields conv b rest))"

text \<open>\<^verbatim>\<open>setBaseFromLocale\<close>: the new base value, or \<open>None\<close> for \<^verbatim>\<open>false\<close>.\<close>

definition setBaseFromLocale ::
  "(val \<Rightarrow> ty \<Rightarrow> val option) \<Rightarrow> val \<Rightarrow> (fmeta \<times> val) list \<Rightarrow> string list \<Rightarrow> val option outcome" where
  "setBaseFromLocale conv b lfs preferredKeys =
     (case (case firstPreferredLocaleValue lfs preferredKeys of
              Some f \<Rightarrow> assignValue conv True (PkgPath (fst f) \<noteq> []) b (snd f)
            | None \<Rightarrow> Returned None) of
        Panicked \<Rightarrow> Panicked
      | Returned (Some v) \<Rightarrow> Returned (Some v)
      | Returned None \<Rightarrow> baseFromFields conv b lfs)"

text \<open>The two passes of \<^verbatim>\<open>setLocaleFromBase\<close>; the result is the companion's fields
  after the first successful assignment, or \<open>None\<close> for \<^verbatim>\<open>false\<close>.  The source is the
  base value, read from an exported field.\<close>

fun localeFromKeys ::
  "(val \<Rightarrow> ty \<Rightarrow> val option) \<Rightarrow> val \<Rightarrow> (fmeta \<times> val) list \<Rightarrow> string list
     \<Rightarrow> (fmeta \<times> val) list option outcome" where
  "localeFromKeys conv b lfs [] = Returned None"
| "localeFromKeys conv b lfs (key # keys) =
     (case fieldIndex lfs key of
        None \<Rightarrow> localeFromKeys conv b lfs keys
      | Some k \<Rightarrow>
          if PkgPath (fst (lfs ! k)) \<noteq> [] then localeFromKeys conv b lfs keys
          else if \<not> isZero (snd (lfs ! k)) then localeFromKeys conv b lfs keys
          else
            (case assignValue conv True False (snd (lfs ! k)) b of
               Panicked \<Rightarrow> Panicked
             | Returned (Some v) \<Rightarrow> Returned (Some (setField lfs k v))
             | Returned None \<Rightarrow> localeFromKeys conv b lfs keys))"

fun localeFromFields ::
  "(val \<Rightarrow> ty \<Rightarrow> val option) \<Rightarrow> val \<Rightarrow> (fmeta \<times> val) list \<Rightarrow> nat list
     \<Rightarrow> (fmeta \<times> val) list option outcome" where
  "localeFromFields conv b lfs [] = Returned None"
| "localeFromFields conv b lfs (k # ks) =
     (if PkgPath (fst (lfs ! k)) \<noteq> [] then localeFromFields conv b lfs ks
      else if \<not> isZero (snd (lfs ! k)) then localeFromFields conv b lfs ks
      else
        (case assignValue conv True False (snd (lfs ! k)) b of
           Panicked \<Rightarrow> Panicked
         | Returned (Some v) \<Rightarrow> Returned (Some (setField lfs k v))
         | Returned None \<Rightarrow> localeFromFields conv b lfs ks))"

definition setLocaleFromBase ::
  "(val \<Rightarrow> ty \<Rightarrow> val option) \<Rightarrow> val \<Rightarrow> (fmeta \<times> val) list \<Rightarrow> string list
     \<Rightarrow> (fmeta \<times> val) list option outcome" where
  "setLocaleFromBase conv b lfs preferredKeys =
     (case localeFromKeys conv b lfs preferredKeys of
        Panicked \<Rightarrow> Panicked
      | Returned (Some lfs') \<Rightarrow> Returned (Some lfs')
      | Returned None \<Rightarrow> localeFromFields conv b lfs [0..<length lfs])"

fun structFields :: "val \<Rightarrow> (fmeta \<times> val) list option" where
  "structFields (VStruct n fs) = Some fs"
| "structFields _ = None"

fun withFields :: "val \<Rightarrow> (fmeta \<times> val) list \<Rightarrow> val" where
  "withFields (VStruct n fs) fs' = VStruct n fs'"
| "withFields v fs' = v"

text \<open>A loop over field indices that stops at a panic.\<close>

fun forFields :: "(nat \<Rightarrow> 's \<Rightarrow> 's outcome) \<Rightarrow> nat list \<Rightarrow> 's \<Rightarrow> 's outcome" where
  "forFields body [] s = Returned s"
| "forFields body (i # is) s =
     (case body i s of Panicked \<Rightarrow> Panicked | Returned s' \<Rightarrow> forFields body is s')"

text \<open>
  The part of one iteration of \<^verbatim>\<open>localesMarshalHook\<close> after the base value is
  dereferenced: \<open>fs\<close> holds the allocation of a nil base pointer if there was one, \<open>b\<close> is
  the base value, reached through a pointer when \<open>bvia\<close>.
\<close>

definition marshalSync ::
  "(val \<Rightarrow> ty \<Rightarrow> val option) \<Rightarrow> string list \<Rightarrow> nat \<Rightarrow> nat \<Rightarrow> bool \<Rightarrow> val
     \<Rightarrow> (fmeta \<times> val) list \<Rightarrow> (fmeta \<times> val) list outcome" where
  "marshalSync conv preferredKeys i j bvia b fs =
     (let cont = (\<lambda>fs2 lvia l.
            case structFields l of
              None \<Rightarrow> Returned fs2
            | Some lfs \<Rightarrow>
                if isZero b then
                  (if isZero l then Returned fs2
                   else
                     (case setBaseFromLocale conv b lfs preferredKeys of
                        Panicked \<Rightarrow> Panicked
                      | Returned None \<Rightarrow> Returned fs2
                      | Returned (Some b') \<Rightarrow> Returned (writeRef fs2 j bvia b')))
                else if isZero l then
                  (case setLocaleFromBase conv b lfs preferredKeys of
                     Panicked \<Rightarrow> Panicked
                   | Returned None \<Rightarrow> Returned fs2
                   | Returned (Some lfs') \<Rightarrow> Returned (writeRef fs2 i lvia (withFields l lfs')))
                else Returned fs2)
      in case snd (fs ! i) of
           VNilPtr t \<Rightarrow>
             if isZero b then Returned fs
             else cont (setField fs i (VPtr (zeroOf t))) True (zeroOf t)
         | VPtr l \<Rightarrow> cont fs True l
         | l \<Rightarrow> cont fs False l)"

text \<open>One iteration of the loop of \<^verbatim>\<open>localesMarshalHook\<close>, for the field \<open>i\<close>.
  \<open>canSet\<close> says that the struct is addressable.\<close>

definition marshalStep ::
  "(val \<Rightarrow> ty \<Rightarrow> val option) \<Rightarrow> bool \<Rightarrow> string list \<Rightarrow> nat
     \<Rightarrow> (fmeta \<times> val) list \<Rightarrow> (fmeta \<times> val) list outcome" where
  "marshalStep conv canSet preferredKeys i fs =
     (if PkgPath (fst (fs ! i)) \<noteq> [] then Returned fs
      else
        (case localeBaseName (Name (fst (fs ! i))) of
           None \<Rightarrow> Returned fs
         | Some baseName \<Rightarrow>
             (case fieldIndex fs baseName of
                None \<Rightarrow> Returned fs
              | Some j \<Rightarrow>
                  if PkgPath (fst (fs ! j)) \<noteq> [] then Returned fs
                  else if \<not> canSet then Returned fs
                  else
                    (case snd (fs ! j) of
                       VNilPtr t \<Rightarrow>
                         if isZero (snd (fs ! i)) then Returned fs
                         else marshalSync conv preferredKeys i j True (zeroOf t)
                                (setField fs j (VPtr (zeroOf t)))
                     | VPtr b \<Rightarrow> marshalSync conv preferredKeys i j True b fs
                     | b \<Rightarrow> marshalSync conv preferredKeys i j False b fs))))"

text \<open>
  \<^verbatim>\<open>localesMarshalHook\<close> on the value that \<^verbatim>\<open>unwindValue\<close> returned (that function is not
  among these files).  The hook returns no error; the result is the value after the hook.
\<close>

definition localesMarshalHook ::
  "(val \<Rightarrow> ty \<Rightarrow> val option) \<Rightarrow> bool \<Rightarrow> val \<Rightarrow> string list \<Rightarrow> val outcome" where
  "localesMarshalHook conv canSet v preferredKeys =
     (case v of
        VStruct n fs \<Rightarrow>
          (case forFields (marshalStep conv canSet preferredKeys) [0..<length fs] fs of
             Panicked \<Rightarrow> Panicked
           | Returned fs' \<Rightarrow> Returned (VStruct n fs'))
      | _ \<Rightarrow> Returned v)"

subsection \<open>The unmarshal direction\<close>

text \<open>The raw properties: a key is absent, present with the nil value (\<open>Some None\<close>), or
  present with a value.\<close>

type_synonym rawProps = "string \<rightharpoonup> val option"

definition flatKey :: "string \<Rightarrow> string \<Rightarrow> string" where
  "flatKey pfx nm = pfx @ ''_'' @ lcFirst nm"

fun hasAnyFlatKey :: "rawProps \<Rightarrow> string \<Rightarrow> string list \<Rightarrow> bool" where
  "hasAnyFlatKey props pfx [] = False"
| "hasAnyFlatKey props pfx (key # keys) =
     (if props (flatKey pfx key) \<noteq> None then True else hasAnyFlatKey props pfx keys)"

text \<open>The field loop of \<^verbatim>\<open>extractFlatLocaleKeys\<close>: the flag and the fields after it.\<close>

fun extractFields ::
  "(val \<Rightarrow> ty \<Rightarrow> val option) \<Rightarrow> rawProps \<Rightarrow> string \<Rightarrow> (fmeta \<times> val) list
     \<Rightarrow> bool \<times> (fmeta \<times> val) list" where
  "extractFields conv props pfx [] = (False, [])"
| "extractFields conv props pfx (f # rest) =
     (let r = extractFields conv props pfx rest;
          skip = (fst r, f # snd r)
      in if PkgPath (fst f) \<noteq> [] then skip
         else
           (case props (flatKey pfx (Name (fst f))) of
              None \<Rightarrow> skip
            | Some None \<Rightarrow> skip
            | Some (Some v) \<Rightarrow>
                if typeOf v = typeOf (snd f) then (True, (fst f, v) # snd r)
                else
                  (case conv v (typeOf (snd f)) of
                     Some v' \<Rightarrow> (True, (fst f, v') # snd r)
                   | None \<Rightarrow> skip)))"

text \<open>\<^verbatim>\<open>extractFlatLocaleKeys\<close>: the flag, and the value of the companion field after
  the call.\<close>

definition extractFlatLocaleKeys ::
  "(val \<Rightarrow> ty \<Rightarrow> val option) \<Rightarrow> rawProps \<Rightarrow> string \<Rightarrow> val \<Rightarrow> string list \<Rightarrow> bool \<times> val" where
  "extractFlatLocaleKeys conv props baseName localeValue preferredKeys =
     (let pfx = lcFirst baseName;
          inner = (\<lambda>l. case l of
                     VStruct n lfs \<Rightarrow>
                       (fst (extractFields conv props pfx lfs),
                        VStruct n (snd (extractFields conv props pfx lfs)))
                   | _ \<Rightarrow> (False, l))
      in case localeValue of
           VNilPtr t \<Rightarrow>
             if \<not> hasAnyFlatKey props pfx preferredKeys then (False, localeValue)
             else (fst (inner (zeroOf t)), VPtr (snd (inner (zeroOf t))))
         | VPtr l \<Rightarrow> (fst (inner l), VPtr (snd (inner l)))
         | l \<Rightarrow> inner l)"

text \<open>Phase 2 of one iteration of \<^verbatim>\<open>localesUnmarshalHook\<close>, after the base value is
  dereferenced.\<close>

definition unmarshalSync ::
  "(val \<Rightarrow> ty \<Rightarrow> val option) \<Rightarrow> string list \<Rightarrow> bool \<Rightarrow> nat \<Rightarrow> nat \<Rightarrow> bool \<Rightarrow> val
     \<Rightarrow> (fmeta \<times> val) list \<Rightarrow> (fmeta \<times> val) list outcome" where
  "unmarshalSync conv preferredKeys flatKeysFound i j bvia bv fs =
     (let cont = (\<lambda>lv.
            case structFields lv of
              None \<Rightarrow> Returned fs
            | Some lfs \<Rightarrow>
                (let sync =
                       (case setBaseFromLocale conv bv lfs preferredKeys of
                          Panicked \<Rightarrow> Panicked
                        | Returned None \<Rightarrow> Returned fs
                        | Returned (Some b') \<Rightarrow> Returned (writeRef fs j bvia b'))
                 in if flatKeysFound then sync
                    else if isZero bv then (if isZero lv then Returned fs else sync)
                    else Returned fs))
      in case snd (fs ! i) of
           VNilPtr t \<Rightarrow> Returned fs
         | VPtr l \<Rightarrow> cont l
         | l \<Rightarrow> cont l)"

definition unmarshalStep ::
  "(val \<Rightarrow> ty \<Rightarrow> val option) \<Rightarrow> bool \<Rightarrow> rawProps option \<Rightarrow> string list \<Rightarrow> nat
     \<Rightarrow> (fmeta \<times> val) list \<Rightarrow> (fmeta \<times> val) list outcome" where
  "unmarshalStep conv canSet props preferredKeys i fs =
     (if PkgPath (fst (fs ! i)) \<noteq> [] then Returned fs
      else
        (case localeBaseName (Name (fst (fs ! i))) of
           None \<Rightarrow> Returned fs
         | Some baseName \<Rightarrow>
             (case fieldIndex fs baseName of
                None \<Rightarrow> Returned fs
              | Some j \<Rightarrow>
                  if PkgPath (fst (fs ! j)) \<noteq> [] then Returned fs
                  else if \<not> canSet then Returned fs
                  else
                    (let ex = (case props of
                                 None \<Rightarrow> (False, snd (fs ! i))
                               | Some m \<Rightarrow>
                                   extractFlatLocaleKeys conv m baseName (snd (fs ! i))
                                     preferredKeys);
                         flatKeysFound = fst ex;
                         fs1 = setField fs i (snd ex)
                     in case snd (fs1 ! j) of
                          VNilPtr t \<Rightarrow>
                            (case (case snd (fs1 ! i) of
                                     VNilPtr t' \<Rightarrow> None
                                   | VPtr l \<Rightarrow> Some l
                                   | l \<Rightarrow> Some l) of
                               None \<Rightarrow> Returned fs1
                             | Some lv \<Rightarrow>
                                 if structFields lv = None then Returned fs1
                                 else if isZero lv then Returned fs1
                                 else unmarshalSync conv preferredKeys flatKeysFound i j True
                                        (zeroOf t) (setField fs1 j (VPtr (zeroOf t))))
                        | VPtr b \<Rightarrow> unmarshalSync conv preferredKeys flatKeysFound i j True b fs1
                        | b \<Rightarrow> unmarshalSync conv preferredKeys flatKeysFound i j False b fs1))))"

text \<open>
  \<^verbatim>\<open>localesUnmarshalHook\<close> on the unwound target.  \<open>from\<close> is \<open>Some m\<close> when the raw
  value is a non-nil string-keyed map, \<open>None\<close> otherwise.
\<close>

definition localesUnmarshalHook ::
  "(val \<Rightarrow> ty \<Rightarrow> val option) \<Rightarrow> bool \<Rightarrow> rawProps option \<Rightarrow> val \<Rightarrow> string list \<Rightarrow> val outcome" where
  "localesUnmarshalHook conv canSet from to preferredKeys =
     (case to of
        VStruct n fs \<Rightarrow>
          (case forFields (unmarshalStep conv canSet from preferredKeys) [0..<length fs] fs of
             Panicked \<Rightarrow> Panicked
           | Returned fs' \<Rightarrow> Returned (VStruct n fs'))
      | _ \<Rightarrow> Returned to)"

section \<open>Definitions used to state the properties\<close>

text \<open>The entry the code makes of a label and the name of the composed type that
  contributed it.\<close>

definition nameOfLabel :: "string \<times> string \<Rightarrow> neo4jName" where
  "nameOfLabel p = \<lparr>name = fst p, concrete = (snd p \<noteq> ''Label'')\<rparr>"

text \<open>The name of a label annotation: its first comma-separated segment.\<close>

definition firstSegment :: "string \<Rightarrow> string" where
  "firstSegment label = hd (splitOn CHR '','' label)"

subsection \<open>The record types of the repository's tests\<close>

definition NodeT :: ty where
  "NodeT = TStruct ''Node''
     [(\<lparr>Name = ''ID'', PkgPath = [], Anonymous = False, Tag = [(''json'', ''id'')]\<rparr>, TString)]"

definition personT :: ty where
  "personT = TStruct ''person''
     [(\<lparr>Name = ''Node'', PkgPath = [], Anonymous = True, Tag = [(''neo4j'', ''Person'')]\<rparr>,
       NodeT)]"

definition swedishPersonT :: ty where
  "swedishPersonT = TStruct ''swedishPerson''
     [(\<lparr>Name = ''person'', PkgPath = ''internal'', Anonymous = True,
        Tag = [(''neo4j'', ''Swedish'')]\<rparr>, personT)]"

definition foreignPersonT :: ty where
  "foreignPersonT = TStruct ''foreignPerson''
     [(\<lparr>Name = ''swedishPerson'', PkgPath = ''internal'', Anonymous = True,
        Tag = [(''neo4j'', ''Foreign'')]\<rparr>, swedishPersonT)]"

definition RelationshipT :: ty where
  "RelationshipT = TStruct ''Relationship''
     [(\<lparr>Name = ''ID'', PkgPath = [], Anonymous = False, Tag = [(''json'', ''id'')]\<rparr>, TString)]"

definition friendshipT :: ty where
  "friendshipT = TStruct ''friendship''
     [(\<lparr>Name = ''Relationship'', PkgPath = [], Anonymous = True,
        Tag = [(''neo4j'', ''Friendship'')]\<rparr>, RelationshipT)]"

definition familyT :: ty where
  "familyT = TStruct ''family''
     [(\<lparr>Name = ''Relationship'', PkgPath = [], Anonymous = True,
        Tag = [(''neo4j'', ''Family'')]\<rparr>, RelationshipT)]"

text \<open>A record composing the two relationship types above.\<close>

definition friendAndFamilyT :: ty where
  "friendAndFamilyT = TStruct ''friendAndFamily''
     [(\<lparr>Name = ''friendship'', PkgPath = ''internal'', Anonymous = True, Tag = []\<rparr>,
       friendshipT),
      (\<lparr>Name = ''family'', PkgPath = ''internal'', Anonymous = True, Tag = []\<rparr>, familyT)]"

subsection \<open>Views of the serializer's walk\<close>

text \<open>Sequencing of two parts of a walk, on the results and on the key lists.\<close>

definition thenWalk ::
  "propsError + props \<Rightarrow> (props \<Rightarrow> propsError + props) \<Rightarrow> propsError + props" where
  "thenWalk r k = (case r of Inl e \<Rightarrow> Inl e | Inr p \<Rightarrow> k p)"

definition thenKeys :: "string list \<times> bool \<Rightarrow> string list \<times> bool \<Rightarrow> string list \<times> bool" where
  "thenKeys a b = (if snd a then (fst a @ fst b, snd b) else a)"

text \<open>What one field does to the map, and the keys it produces: the body of the loop
  of \<open>collectFields\<close> and of \<open>producedKeysFields\<close>.\<close>

definition fieldWalk ::
  "(string \<Rightarrow> string) \<Rightarrow> fmeta \<times> val \<Rightarrow> string \<Rightarrow> props \<Rightarrow> propsError + props" where
  "fieldWalk lc f pfx props =
     (if PkgPath (fst f) \<noteq> [] then Inr props
      else
        (case PropTagForField (fst f) of
           None \<Rightarrow> if Anonymous (fst f) then collectProps lc (snd f) pfx props else Inr props
         | Some tag \<Rightarrow>
             if Ignore tag then Inr props
             else if Flatten tag then
               (if \<not> ValidateFlattenType (typeOf (snd f)) then Inl FlattenNotStruct
                else if isZero (snd f) then Inr props
                else collectProps lc (snd f) (JoinPrefix pfx (propName lc tag (fst f))) props)
             else if isZero (snd f) then Inr props
             else
               (let key = JoinPrefix pfx (propName lc tag (fst f))
                in if props key \<noteq> None then Inl (DuplicateKey key)
                   else Inr (props(key \<mapsto> snd f)))))"

definition fieldKeys ::
  "(string \<Rightarrow> string) \<Rightarrow> fmeta \<times> val \<Rightarrow> string \<Rightarrow> string list \<times> bool" where
  "fieldKeys lc f pfx =
     (if PkgPath (fst f) \<noteq> [] then ([], True)
      else
        (case PropTagForField (fst f) of
           None \<Rightarrow> if Anonymous (fst f) then producedKeys lc (snd f) pfx else ([], True)
         | Some tag \<Rightarrow>
             if Ignore tag then ([], True)
             else if Flatten tag then
               (if \<not> ValidateFlattenType (typeOf (snd f)) then ([], False)
                else if isZero (snd f) then ([], True)
                else producedKeys lc (snd f) (JoinPrefix pfx (propName lc tag (fst f))))
             else if isZero (snd f) then ([], True)
             else ([JoinPrefix pfx (propName lc tag (fst f))], True)))"

text \<open>
  How the result of a walk that started with the map \<open>props\<close> relates to the keys it
  produces: the walk returns a map exactly when it went through and the keys are distinct
  and new, and then the map has gained these keys; it fails on a flatten field only when
  the keys up to that field are distinct and new; and the key of a duplicate-key error is
  one of the produced keys.
\<close>

definition walkMatchesKeys :: "propsError + props \<Rightarrow> string list \<times> bool \<Rightarrow> props \<Rightarrow> bool" where
  "walkMatchesKeys r ko props =
     (case r of
        Inr props' \<Rightarrow>
          snd ko \<and> distinct (fst ko) \<and> set (fst ko) \<inter> dom props = {}
          \<and> dom props' = dom props \<union> set (fst ko)
      | Inl FlattenNotStruct \<Rightarrow>
          \<not> snd ko \<and> distinct (fst ko) \<and> set (fst ko) \<inter> dom props = {}
      | Inl (DuplicateKey k) \<Rightarrow>
          k \<in> set (fst ko) \<and> (\<not> distinct (fst ko) \<or> set (fst ko) \<inter> dom props \<noteq> {})
      | Inl NotAStruct \<Rightarrow> False)"

text \<open>A walk that returns a map has kept the entries it started with and added only
  values that are not zero.\<close>

definition onlyAddsNonZero :: "propsError + props \<Rightarrow> props \<Rightarrow> bool" where
  "onlyAddsNonZero r props =
     (case r of
        Inl e \<Rightarrow> True
      | Inr props' \<Rightarrow> (\<forall>k x. props' k = Some x \<longrightarrow> props k = Some x \<or> \<not> isZero x))"

subsection \<open>Example records for the serializer\<close>

definition jsonField :: "string \<Rightarrow> string \<Rightarrow> fmeta" where
  "jsonField nm tag = \<lparr>Name = nm, PkgPath = [], Anonymous = False, Tag = [(''json'', tag)]\<rparr>"

text \<open>A person with an empty name and the age 3.\<close>

definition namelessPerson :: val where
  "namelessPerson = VStruct ''person''
     [(jsonField ''Name'' ''name'', VString []), (jsonField ''Age'' ''age'', VInt 3)]"

text \<open>A record whose field \<^verbatim>\<open>A\<close> is named \<^verbatim>\<open>a_b\<close> and whose flattened field \<^verbatim>\<open>F\<close>, with
  the prefix \<^verbatim>\<open>a\<close>, holds a field named \<^verbatim>\<open>b\<close>.\<close>

definition clashingRecord :: val where
  "clashingRecord = VStruct ''clashing''
     [(jsonField ''A'' ''a_b'', VString ''one''),
      (jsonField ''F'' ''a,flatten'',
       VStruct ''inner'' [(jsonField ''B'' ''b'', VString ''two'')])]"

subsection \<open>Example records for the locale hooks\<close>

text \<open>The records of the repository's hook tests.  Their base and companion fields are
  strings, so no conversion takes place; \<open>noConversion\<close> converts nothing.\<close>

definition noConversion :: "val \<Rightarrow> ty \<Rightarrow> val option" where
  "noConversion v t = None"

definition hookLocales :: "string \<Rightarrow> string \<Rightarrow> val" where
  "hookLocales us au = VStruct ''hookLocales''
     [(jsonField ''EnUS'' ''enUS'', VString us), (jsonField ''EnAU'' ''enAU'', VString au)]"

definition hookLocalesT :: ty where
  "hookLocalesT = TStruct ''hookLocales''
     [(jsonField ''EnUS'' ''enUS'', TString), (jsonField ''EnAU'' ''enAU'', TString)]"

definition hookPtrBaseLocalePerson :: "val \<Rightarrow> val \<Rightarrow> val" where
  "hookPtrBaseLocalePerson nm loc = VStruct ''hookPtrBaseLocalePerson''
     [(jsonField ''Name'' ''name'', nm), (jsonField ''NameLocale'' ''nameLocale'', loc)]"

definition hookNilableLocalePerson :: "string \<Rightarrow> val \<Rightarrow> val" where
  "hookNilableLocalePerson nm loc = VStruct ''hookNilableLocalePerson''
     [(jsonField ''Name'' ''name'', VString nm), (jsonField ''NameLocale'' ''nameLocale'', loc)]"

definition hookLocalizedPerson :: "string \<Rightarrow> val \<Rightarrow> val" where
  "hookLocalizedPerson nm loc = VStruct ''hookLocalizedPerson''
     [(jsonField ''Name'' ''name'', VString nm), (jsonField ''NameLocale'' ''nameLocale'', loc)]"

subsection \<open>The locale choice, in the words of the specification\<close>

text \<open>The first locale key in preference order whose companion field holds a non-zero
  value; the first non-zero companion field in declaration order; and the first with the
  second as fallback.\<close>

definition preferredNonZero :: "(fmeta \<times> val) list \<Rightarrow> string list \<Rightarrow> val option" where
  "preferredNonZero lfs keys =
     List.find (\<lambda>v. \<not> isZero v)
       (List.map_filter (\<lambda>k. map_option snd (List.find (\<lambda>f. Name (fst f) = k) lfs)) keys)"

definition firstNonZero :: "(fmeta \<times> val) list \<Rightarrow> val option" where
  "firstNonZero lfs = List.find (\<lambda>v. \<not> isZero v) (map snd lfs)"

definition localeChoice :: "(fmeta \<times> val) list \<Rightarrow> string list \<Rightarrow> val option" where
  "localeChoice lfs keys =
     (case preferredNonZero lfs keys of Some v \<Rightarrow> Some v | None \<Rightarrow> firstNonZero lfs)"

text \<open>The value of a companion field once it is populated from the raw map: the
  non-nil value under the field's flat key when it has the field's type or converts to
  it, the field's own value otherwise.\<close>

definition populatedField :: "(val \<Rightarrow> ty \<Rightarrow> val option) \<Rightarrow> rawProps \<Rightarrow> string \<Rightarrow> fmeta \<times> val \<Rightarrow> val" where
  "populatedField conv props pfx f =
     (case props (flatKey pfx (Name (fst f))) of
        Some (Some w) \<Rightarrow>
          if typeOf w = typeOf (snd f) then w
          else (case conv w (typeOf (snd f)) of Some w' \<Rightarrow> w' | None \<Rightarrow> snd f)
      | _ \<Rightarrow> snd f)"

text \<open>The fields of a companion that is a struct, a pointer to a struct or a nil pointer
  to a struct (then the fields of the zero struct); the companion with its fields replaced
  (a nil pointer is allocated); the type of the base through its pointer; the base with its
  value replaced.\<close>

fun companionFields :: "val \<Rightarrow> (fmeta \<times> val) list option" where
  "companionFields (VStruct n lfs) = Some lfs"
| "companionFields (VPtr (VStruct n lfs)) = Some lfs"
| "companionFields (VNilPtr (TStruct n tfs)) = Some (map (\<lambda>f. (fst f, zeroOf (snd f))) tfs)"
| "companionFields _ = None"

fun withCompanionFields :: "val \<Rightarrow> (fmeta \<times> val) list \<Rightarrow> val" where
  "withCompanionFields (VStruct n lfs) lfs' = VStruct n lfs'"
| "withCompanionFields (VPtr (VStruct n lfs)) lfs' = VPtr (VStruct n lfs')"
| "withCompanionFields (VNilPtr (TStruct n tfs)) lfs' = VPtr (VStruct n lfs')"
| "withCompanionFields v lfs' = v"

fun baseTarget :: "val \<Rightarrow> ty" where
  "baseTarget (VNilPtr t) = t"
| "baseTarget (VPtr b) = typeOf b"
| "baseTarget b = typeOf b"

fun withBase :: "val \<Rightarrow> val \<Rightarrow> val" where
  "withBase (VNilPtr t) b' = VPtr b'"
| "withBase (VPtr b) b' = VPtr b'"
| "withBase b b' = b'"

section \<open>Properties of the tag parser\<close>

text \<open>
  Claim C9.  For every annotation value whose first comma-separated segment is \<^verbatim>\<open>-\<close>,
  the parsed directive has \<^verbatim>\<open>Ignore\<close> set and the options are not parsed: \<^verbatim>\<open>Flatten\<close>
  stays false, whatever the later segments are (also when one of them is \<^verbatim>\<open>flatten\<close>).
\<close>

theorem ParsePropTag_ignore_short_circuits:
  assumes "hd (splitOn CHR '','' raw) = ''-''"
  shows "Ignore (ParsePropTag key raw) \<and> \<not> Flatten (ParsePropTag key raw)"
  using assms by (simp add: ParsePropTag_def Let_def)

theorem ParsePropTag_ignore_short_circuits_witness:
  "hd (splitOn CHR '','' ''-,flatten'') = ''-''
   \<and> ''flatten'' \<in> set (tl (splitOn CHR '','' ''-,flatten''))
   \<and> Ignore (ParsePropTag ''db'' ''-,flatten'')
   \<and> \<not> Flatten (ParsePropTag ''db'' ''-,flatten'')"
  using ParsePropTag_ignore_short_circuits [of "''-,flatten''" "''db''"] by simp

section \<open>Properties of the label extractor\<close>

lemma map_filter_map_option:
  "List.map_filter (\<lambda>x. map_option g (h x)) xs = map g (List.map_filter h xs)"
  by (induction xs) (auto simp: List.map_filter_simps split: option.splits)

lemma bfs_natural:
  "bfs (\<lambda>x. map_option g (h x)) queue = map g (bfs h queue)"
  by (induction h queue rule: bfs.induct) (simp_all add: map_filter_map_option)

lemma extractTagFromMatch_labelWithType:
  "extractTagFromMatch = (\<lambda>x. map_option nameOfLabel (labelWithType x))"
  by (auto simp: extractTagFromMatch_def labelWithType_def nameOfLabel_def fun_eq_iff
      split: option.splits)

lemma extractNeo4JName_natural:
  "extractNeo4JNameWith (\<lambda>x. map_option g (h x)) v
   = map_option (map g) (extractNeo4JNameWith h v)"
  by (simp add: extractNeo4JNameWith_def Let_def bfs_natural rev_map)

lemma extractNodeLabelsWith_natural:
  "extractNodeLabelsWith (\<lambda>x. map_option g (h x)) impl i
   = map_outcome (map_option (map g)) (extractNodeLabelsWith h impl i)"
proof (induction h impl i rule: extractNodeLabelsWith.induct)
  case (1 h impl)
  then show ?case by simp
next
  case (2 h impl i)
  then show ?case
    by (auto simp: extractNeo4JName_natural split: outcome.splits sum.splits option.splits)
qed

lemma concrete_loop:
  "foldl (\<lambda>out l. if concrete l then out @ [name l] else out) acc labels
   = acc @ map name (filter concrete labels)"
  by (induction labels arbitrary: acc) auto

text \<open>
  Claim C10.  Run the extraction with the handler that records, for each label, the name
  of the composed type that contributed it.  For every input, the concrete extraction
  returns the labels of that run whose type is not named \<^verbatim>\<open>Label\<close>, in the order of the
  run, and the full extraction returns all labels of the run; so the concrete list is a
  subsequence of the full list.  Both panic together and both return nil together.
\<close>

theorem ExtractConcreteNodeLabels_filters_full:
  "ExtractConcreteNodeLabels impl i =
     (case extractNodeLabelsWith labelWithType impl i of
        Panicked \<Rightarrow> Panicked
      | Returned None \<Rightarrow> Returned None
      | Returned (Some ls) \<Rightarrow>
          Returned (Some (map fst (filter (\<lambda>p. snd p \<noteq> ''Label'') ls))))
   \<and> ExtractNodeLabels impl i =
     (case extractNodeLabelsWith labelWithType impl i of
        Panicked \<Rightarrow> Panicked
      | Returned None \<Rightarrow> Returned None
      | Returned (Some ls) \<Rightarrow> Returned (Some (map fst ls)))
   \<and> (case (ExtractConcreteNodeLabels impl i, ExtractNodeLabels impl i) of
        (Returned (Some c), Returned (Some f)) \<Rightarrow> subseq c f
      | (Returned None, Returned None) \<Rightarrow> True
      | (Panicked, Panicked) \<Rightarrow> True
      | _ \<Rightarrow> False)"
proof -
  have e: "extractNodeLabels impl i
           = map_outcome (map_option (map nameOfLabel))
               (extractNodeLabelsWith labelWithType impl i)"
    unfolding extractNodeLabels_def extractTagFromMatch_labelWithType
    by (rule extractNodeLabelsWith_natural)
  have f: "map name (filter concrete (map nameOfLabel ls))
           = map fst (filter (\<lambda>p. snd p \<noteq> ''Label'') ls)" for ls
    by (induction ls) (auto simp: nameOfLabel_def)
  have g: "map (name \<circ> nameOfLabel) ls = map fst ls" for ls
    by (induction ls) (auto simp: nameOfLabel_def)
  have c: "ExtractConcreteNodeLabels impl i =
     (case extractNodeLabelsWith labelWithType impl i of
        Panicked \<Rightarrow> Panicked
      | Returned None \<Rightarrow> Returned None
      | Returned (Some ls) \<Rightarrow>
          Returned (Some (map fst (filter (\<lambda>p. snd p \<noteq> ''Label'') ls))))"
    by (simp add: ExtractConcreteNodeLabels_def e concrete_loop f
        split: outcome.splits option.splits)
  have a: "ExtractNodeLabels impl i =
     (case extractNodeLabelsWith labelWithType impl i of
        Panicked \<Rightarrow> Panicked
      | Returned None \<Rightarrow> Returned None
      | Returned (Some ls) \<Rightarrow> Returned (Some (map fst ls)))"
    by (simp add: ExtractNodeLabels_def e g split: outcome.splits option.splits)
  have s: "subseq (map fst (filter P ls)) (map fst ls)"
    for P and ls :: "(string \<times> string) list"
    by (simp add: subseq_map)
  have "(case (ExtractConcreteNodeLabels impl i, ExtractNodeLabels impl i) of
        (Returned (Some c), Returned (Some f)) \<Rightarrow> subseq c f
      | (Returned None, Returned None) \<Rightarrow> True
      | (Panicked, Panicked) \<Rightarrow> True
      | _ \<Rightarrow> False)"
    unfolding c a by (simp add: s split: outcome.splits option.splits)
  with c a show ?thesis by blast
qed

lemma typeOf_zeroOf: "typeOf (zeroOf t) = t"
  by (induction t) (auto simp: comp_def intro!: map_idI)

lemma bfs_single:
  assumes "embeddedStructs v = [f]"
  shows "bfs h [v] = List.map_filter h [f] @ bfs h [snd f]"
  using assms by simp

text \<open>
  Claim C5.  The extraction walks the embedded struct fields breadth first and reverses
  the entries it found.  For a chain in which \<open>C\<close> embeds \<open>B\<close> with label \<open>lc\<close>, \<open>B\<close> embeds
  \<open>A\<close> with label \<open>lb\<close> and \<open>A\<close> embeds a type \<open>N\<close> with label \<open>la\<close>, where the walk below
  \<open>N\<close> finds no label, the labels of a node value of type \<open>C\<close> (or of a pointer to one) are
  \<open>la\<close>, \<open>lb\<close>, \<open>lc\<close>: base first, most derived last.
\<close>

theorem ExtractNodeLabels_chain_base_first:
  assumes "embeddedStructs C = [(mC, B)]" and "map_of (Tag mC) neo4jTag = Some lc"
    and "embeddedStructs B = [(mB, A)]" and "map_of (Tag mB) neo4jTag = Some lb"
    and "embeddedStructs A = [(mA, N)]" and "map_of (Tag mA) neo4jTag = Some la"
    and "bfs extractTagFromMatch [N] = []"
    and "derefT (typeOf v) = C" and "impl (typeOf v)"
  shows "extractNeo4JName v = Some (rev (bfs extractTagFromMatch [C]))
         \<and> ExtractNodeLabels impl (Some v)
             = Returned (Some [firstSegment la, firstSegment lb, firstSegment lc])"
proof -
  have s: "isStructT C" using assms(1) by (cases C) (simp_all add: embeddedStructs_def)
  have "bfs extractTagFromMatch [C]
        = [\<lparr>name = firstSegment lc, concrete = (tyName B \<noteq> ''Label'')\<rparr>,
           \<lparr>name = firstSegment lb, concrete = (tyName A \<noteq> ''Label'')\<rparr>,
           \<lparr>name = firstSegment la, concrete = (tyName N \<noteq> ''Label'')\<rparr>]"
    using assms(1-7)
    by (simp add: bfs_single List.map_filter_simps extractTagFromMatch_def firstSegment_def)
  then show ?thesis using assms(8,9) s
    by (simp add: ExtractNodeLabels_def extractNodeLabels_def extractNeo4JName_def
        extractNeo4JNameWith_def)
qed

theorem ExtractNodeLabels_chain_base_first_witness:
  "ExtractNodeLabels (\<lambda>t. True) (Some (zeroOf foreignPersonT))
     = Returned (Some [''Person'', ''Swedish'', ''Foreign''])"
  using ExtractNodeLabels_chain_base_first
    [of foreignPersonT _ swedishPersonT "''Foreign''" _ personT "''Swedish''" _ NodeT
      "''Person''" "zeroOf foreignPersonT" "\<lambda>t. True"]
  by (simp add: typeOf_zeroOf embeddedStructs_def foreignPersonT_def swedishPersonT_def
      personT_def NodeT_def neo4jTag_def firstSegment_def List.map_filter_simps)

section \<open>Properties of the relationship-type extractor\<close>

lemma derefV_struct:
  "isStructT (derefT (typeOf r))
   \<Longrightarrow> derefV r = None \<or> (\<exists>u. derefV r = Some u \<and> elemOfSeq (typeOf u) = None)"
  by (induction r rule: derefV.induct) auto

text \<open>
  Claim C6.  The nil input gives the empty string.  For a value whose type is a record
  (through pointers): when the walk finds more than one relationship-type annotation the
  call panics if the value is a relationship, and returns the empty string if it is not;
  it never returns one of the names.  When the walk finds no annotation the call returns
  the empty string.
\<close>

theorem ExtractRelationshipType_many_or_none:
  "ExtractRelationshipType impl None = Returned []
   \<and> (\<forall>tags. extractNeo4JName r = Some tags \<longrightarrow>
         (1 < length tags \<longrightarrow>
            ExtractRelationshipType impl (Some r)
              = (if impl (typeOf r) then Panicked else Returned []))
       \<and> (tags = [] \<longrightarrow> ExtractRelationshipType impl (Some r) = Returned []))"
proof -
  have "ExtractRelationshipType impl (Some r) = Returned []"
    if "extractNeo4JName r = Some tags" and "\<not> impl (typeOf r)" for tags
  proof -
    from that(1) have "isStructT (derefT (typeOf r))"
      by (simp add: extractNeo4JName_def extractNeo4JNameWith_def Let_def split: if_splits)
    from derefV_struct [OF this] that(2) show ?thesis by auto
  qed
  then show ?thesis by auto
qed

theorem ExtractRelationshipType_many_or_none_witness:
  "extractNeo4JName (zeroOf friendAndFamilyT)
     = Some [\<lparr>name = ''Family'', concrete = True\<rparr>, \<lparr>name = ''Friendship'', concrete = True\<rparr>]
   \<and> ExtractRelationshipType (\<lambda>t. True) (Some (zeroOf friendAndFamilyT)) = Panicked
   \<and> ExtractRelationshipType (\<lambda>t. False) (Some (zeroOf friendAndFamilyT)) = Returned []
   \<and> extractNeo4JName (zeroOf RelationshipT) = Some []
   \<and> ExtractRelationshipType (\<lambda>t. True) (Some (zeroOf RelationshipT)) = Returned []"
  using ExtractRelationshipType_many_or_none [of "\<lambda>t. True" "zeroOf friendAndFamilyT"]
    ExtractRelationshipType_many_or_none [of "\<lambda>t. False" "zeroOf friendAndFamilyT"]
    ExtractRelationshipType_many_or_none [of "\<lambda>t. True" "zeroOf RelationshipT"]
  by (simp add: typeOf_zeroOf embeddedStructs_def friendAndFamilyT_def friendshipT_def
      familyT_def RelationshipT_def neo4jTag_def extractNeo4JName_def extractNeo4JNameWith_def
      extractTagFromMatch_def List.map_filter_simps)

section \<open>Properties of the serializer\<close>

lemma isNilPtr_isZero: "isNilPtr v \<Longrightarrow> isZero v"
  by (cases v) auto

lemma not_isZero_not_isNilPtr: "\<not> isZero v \<Longrightarrow> \<not> isNilPtr v"
  by (cases v) auto

lemma collectFields_Cons:
  "collectFields lc (f # rest) pfx props
   = thenWalk (fieldWalk lc f pfx props) (collectFields lc rest pfx)"
  by (auto simp: thenWalk_def fieldWalk_def Let_def isNilPtr_isZero
      split: option.splits sum.splits)

lemma producedKeysFields_Cons:
  "producedKeysFields lc (f # rest) pfx
   = thenKeys (fieldKeys lc f pfx) (producedKeysFields lc rest pfx)"
  by (auto simp: thenKeys_def fieldKeys_def Let_def split: option.splits)

lemma walkMatchesKeys_seq:
  assumes "walkMatchesKeys r1 k1 props"
    and "\<And>p. r1 = Inr p \<Longrightarrow> walkMatchesKeys (k p) k2 p"
  shows "walkMatchesKeys (thenWalk r1 k) (thenKeys k1 k2) props"
proof (cases r1)
  case (Inl e)
  then show ?thesis using assms(1)
    by (cases e) (auto simp: walkMatchesKeys_def thenWalk_def thenKeys_def)
next
  case (Inr p)
  with assms(2) have a2: "walkMatchesKeys (k p) k2 p" by simp
  from Inr assms(1) have a1: "snd k1" "distinct (fst k1)" "set (fst k1) \<inter> dom props = {}"
    "dom p = dom props \<union> set (fst k1)" by (auto simp: walkMatchesKeys_def)
  show ?thesis
  proof (cases "k p")
    case (Inl e)
    then show ?thesis using a1 a2 Inr
      by (cases e) (auto simp: walkMatchesKeys_def thenWalk_def thenKeys_def)
  next
    case (Inr q)
    then show ?thesis using a1 a2 \<open>r1 = Inr p\<close>
      by (auto simp: walkMatchesKeys_def thenWalk_def thenKeys_def)
  qed
qed

lemma walkMatchesKeys_skip: "walkMatchesKeys (Inr props) ([], True) props"
  by (simp add: walkMatchesKeys_def)

lemma walkMatchesKeys_dup:
  "props key = Some y \<Longrightarrow> walkMatchesKeys (Inl (DuplicateKey key)) ([key], True) props"
  by (auto simp: walkMatchesKeys_def)

lemma walkMatchesKeys_new:
  "props key = None \<Longrightarrow> walkMatchesKeys (Inr (props(key \<mapsto> v))) ([key], True) props"
  by (auto simp: walkMatchesKeys_def)

lemma walkMatchesKeys_flatten: "walkMatchesKeys (Inl FlattenNotStruct) ([], False) props"
  by (simp add: walkMatchesKeys_def)

lemma walk_matches_keys:
  "walkMatchesKeys (collectProps lc v pfx props) (producedKeys lc v pfx) props"
  "walkMatchesKeys (collectFields lc fs pfx props) (producedKeysFields lc fs pfx) props"
proof (induction lc v pfx props and lc fs pfx props rule: collectProps_collectFields.induct)
  case (11 lc f rest pfx props)
  note ih = 11 [OF refl refl]
  have here: "walkMatchesKeys (fieldWalk lc f pfx props) (fieldKeys lc f pfx) props"
    using ih(2,8)
    by (auto simp: fieldWalk_def fieldKeys_def Let_def walkMatchesKeys_skip
        walkMatchesKeys_flatten walkMatchesKeys_dup walkMatchesKeys_new
        not_isZero_not_isNilPtr split: option.splits)
  have rest: "walkMatchesKeys (collectFields lc rest pfx p) (producedKeysFields lc rest pfx) p"
    if "fieldWalk lc f pfx props = Inr p" for p
    using that ih(1,3,4,5,6,7,9,10) ih(11) [OF _ _ _ _ _ refl]
    by (auto simp: fieldWalk_def Let_def isNilPtr_isZero not_isZero_not_isNilPtr fun_upd_def
        split: option.splits if_splits)
  show ?case
    unfolding collectFields_Cons producedKeysFields_Cons
    by (rule walkMatchesKeys_seq [OF here rest])
qed (simp_all add: walkMatchesKeys_skip)

lemma onlyAddsNonZero_seq:
  assumes "onlyAddsNonZero r1 props"
    and "\<And>p. r1 = Inr p \<Longrightarrow> onlyAddsNonZero (k p) p"
  shows "onlyAddsNonZero (thenWalk r1 k) props"
  using assms by (fastforce simp: onlyAddsNonZero_def thenWalk_def split: sum.splits)

lemma walk_onlyAddsNonZero:
  "onlyAddsNonZero (collectProps lc v pfx props) props"
  "onlyAddsNonZero (collectFields lc fs pfx props) props"
proof (induction lc v pfx props and lc fs pfx props rule: collectProps_collectFields.induct)
  case (11 lc f rest pfx props)
  note ih = 11 [OF refl refl]
  have here: "onlyAddsNonZero (fieldWalk lc f pfx props) props"
    using ih(2,8)
    by (auto simp: fieldWalk_def Let_def not_isZero_not_isNilPtr split: option.splits)
       (auto simp: onlyAddsNonZero_def)
  have rest: "onlyAddsNonZero (collectFields lc rest pfx p) p"
    if "fieldWalk lc f pfx props = Inr p" for p
    using that ih(1,3,4,5,6,7,9,10) ih(11) [OF _ _ _ _ _ refl]
    by (auto simp: fieldWalk_def Let_def isNilPtr_isZero not_isZero_not_isNilPtr fun_upd_def
        split: option.splits if_splits)
  show ?case
    unfolding collectFields_Cons
    by (rule onlyAddsNonZero_seq [OF here rest])
qed (simp_all add: onlyAddsNonZero_def)

lemma PropsFromStruct_collect:
  "PropsFromStruct lc v = Inr m \<Longrightarrow> collectProps lc v [] Map.empty = Inr m"
  by (induction lc v rule: PropsFromStruct.induct) auto

lemma PropsFromStruct_keys:
  "fst (producedKeys lc v []) \<noteq> [] \<Longrightarrow> PropsFromStruct lc v = collectProps lc v [] Map.empty"
  by (induction lc v rule: PropsFromStruct.induct) auto

text \<open>
  Claim C7.  A field that is exported, carries a directive with neither \<^verbatim>\<open>ignore\<close> nor
  \<^verbatim>\<open>flatten\<close>, and holds the zero value of its type leaves the property map as it is:
  the walk goes on with the rest of the fields and the same map.  And no value of a map
  that \<^verbatim>\<open>PropsFromStruct\<close> returns is a zero value.
\<close>

theorem collectProps_skips_zero_fields:
  "(PkgPath (fst f) = [] \<and> PropTagForField (fst f) = Some tag \<and> \<not> Ignore tag
      \<and> \<not> Flatten tag \<and> isZero (snd f)
    \<longrightarrow> collectFields lc (f # rest) pfx props = collectFields lc rest pfx props)
   \<and> (PropsFromStruct lc v = Inr m \<longrightarrow> (\<forall>k x. m k = Some x \<longrightarrow> \<not> isZero x))"
proof -
  have "\<not> isZero x" if "PropsFromStruct lc v = Inr m" "m k = Some x" for k x
    using walk_onlyAddsNonZero(1) [of lc v "[]" Map.empty]
      PropsFromStruct_collect [OF that(1)] that(2)
    by (auto simp: onlyAddsNonZero_def)
  then show ?thesis by (auto simp: Let_def)
qed

theorem collectProps_skips_zero_fields_witness:
  "PropTagForField (jsonField ''Name'' ''name'')
     = Some \<lparr>PTName = ''name'', Flatten = False, Ignore = False, TagKey = ''json'', RawOpts = []\<rparr>
   \<and> isZero (VString [])
   \<and> collectFields (\<lambda>s. s)
        [(jsonField ''Name'' ''name'', VString []), (jsonField ''Age'' ''age'', VInt 3)]
        [] Map.empty
      = collectFields (\<lambda>s. s) [(jsonField ''Age'' ''age'', VInt 3)] [] Map.empty
   \<and> PropsFromStruct (\<lambda>s. s) namelessPerson = Inr [''age'' \<mapsto> VInt 3]
   \<and> [''age'' \<mapsto> VInt 3] ''name'' = None
   \<and> \<not> isZero (VInt 3)"
  using collectProps_skips_zero_fields
    [of "(jsonField ''Name'' ''name'', VString [])"
      "\<lparr>PTName = ''name'', Flatten = False, Ignore = False, TagKey = ''json'', RawOpts = []\<rparr>"
      "\<lambda>s. s" "[(jsonField ''Age'' ''age'', VInt 3)]" "[]" Map.empty
      namelessPerson "[''age'' \<mapsto> VInt 3]"]
  by (simp add: namelessPerson_def jsonField_def PropTagForField_def ParsePropTag_def
      JoinPrefix_def propName_def)

text \<open>
  Claim C8.  When the keys that the fields of a record produce, directly or under
  flatten prefixes, are not distinct, the serializer returns the duplicate-key error for
  one of these keys; it returns no map.
\<close>

theorem PropsFromStruct_duplicate_key_error:
  assumes "\<not> distinct (fst (producedKeys lc v []))"
  shows "\<exists>k \<in> set (fst (producedKeys lc v [])). PropsFromStruct lc v = Inl (DuplicateKey k)"
proof -
  from assms have ne: "fst (producedKeys lc v []) \<noteq> []" by auto
  have a: "walkMatchesKeys (collectProps lc v [] Map.empty) (producedKeys lc v []) Map.empty"
    by (rule walk_matches_keys)
  show ?thesis
  proof (cases "collectProps lc v [] Map.empty")
    case (Inl e)
    then show ?thesis using a assms PropsFromStruct_keys [OF ne]
      by (cases e) (auto simp: walkMatchesKeys_def)
  next
    case (Inr p)
    then show ?thesis using a assms by (auto simp: walkMatchesKeys_def)
  qed
qed

theorem PropsFromStruct_duplicate_key_error_witness:
  "fst (producedKeys (\<lambda>s. s) clashingRecord []) = [''a_b'', ''a_b'']
   \<and> PropsFromStruct (\<lambda>s. s) clashingRecord = Inl (DuplicateKey ''a_b'')"
  using PropsFromStruct_duplicate_key_error [of "\<lambda>s. s" clashingRecord]
  by (simp add: clashingRecord_def jsonField_def PropTagForField_def ParsePropTag_def
      JoinPrefix_def propName_def)

section \<open>The locale hooks on the records of the tests\<close>

lemmas hook_eval = localesUnmarshalHook_def unmarshalStep_def unmarshalSync_def
  localesMarshalHook_def marshalStep_def marshalSync_def
  localeBaseName_def hasSuffix_def setField_def writeRef_def setBaseFromLocale_def
  setLocaleFromBase_def assignValue_def extractFlatLocaleKeys_def flatKey_def toLowerAscii_def
  jsonField_def hookLocales_def hookLocalesT_def hookPtrBaseLocalePerson_def
  hookNilableLocalePerson_def hookLocalizedPerson_def noConversion_def upt_rec Let_def

text \<open>
  Claim C1 says that, with no flat locale keys, a base that is a non-nil pointer to the
  empty string stays as it is.  The code does otherwise: on the record of the test
  \<^verbatim>\<open>unmarshal: non-nil pointer base with empty string NOT overwritten from locale\<close>
  (\<^verbatim>\<open>Name\<close> points to the empty string, the companion holds \<^verbatim>\<open>EnUS = "Hello"\<close>, no raw
  map) the unmarshal hook writes \<^verbatim>\<open>Hello\<close> into the base.
\<close>

theorem localesUnmarshalHook_overwrites_explicit_empty_base:
  "localesUnmarshalHook noConversion True None
     (hookPtrBaseLocalePerson (VPtr (VString [])) (VPtr (hookLocales ''Hello'' [])))
     [''EnUS'', ''EnAU'']
   = Returned
       (hookPtrBaseLocalePerson (VPtr (VString ''Hello'')) (VPtr (hookLocales ''Hello'' [])))"
  by (simp add: hook_eval)

text \<open>
  Claim C2 says that a base that resolves through a non-nil pointer to the zero value
  forces every field of the companion to zero.  The code does otherwise: on the record of
  the test \<^verbatim>\<open>marshal: both non-nil with zero values\<close> (\<^verbatim>\<open>Name\<close> points to the empty
  string, both companion fields are \<^verbatim>\<open>stale\<close>) the marshal hook leaves the companion as
  it is and writes \<^verbatim>\<open>stale\<close> into the base.
\<close>

theorem localesMarshalHook_zero_base_takes_stale_locale:
  "localesMarshalHook noConversion True
     (hookPtrBaseLocalePerson (VPtr (VString [])) (VPtr (hookLocales ''stale'' ''stale'')))
     [''EnUS'', ''EnAU'']
   = Returned
       (hookPtrBaseLocalePerson (VPtr (VString ''stale''))
          (VPtr (hookLocales ''stale'' ''stale'')))"
  by (simp add: hook_eval)

text \<open>
  Claim C3 says that a non-zero base is written into the companion field of the first
  preferred key and that the other fields are zeroed.  The code does so only for a
  companion that is zero: on the record of the test
  \<^verbatim>\<open>marshal: non-zero base overwrites stale non-zero locale\<close> (\<^verbatim>\<open>Name\<close> is \<^verbatim>\<open>Updated\<close>, both
  companion fields are \<^verbatim>\<open>Stale\<close>) the marshal hook changes nothing.
\<close>

theorem localesMarshalHook_keeps_stale_locale:
  "localesMarshalHook noConversion True
     (hookNilableLocalePerson ''Updated'' (VPtr (hookLocales ''Stale'' ''Stale'')))
     [''EnUS'', ''EnAU'']
   = Returned (hookNilableLocalePerson ''Updated'' (VPtr (hookLocales ''Stale'' ''Stale'')))"
  by (simp add: hook_eval)

text \<open>The example of the same claim with a nil companion holds: the companion is
  allocated, \<^verbatim>\<open>EnUS\<close> takes the base and \<^verbatim>\<open>EnAU\<close> stays empty.\<close>

lemma localesMarshalHook_fills_nil_companion:
  "localesMarshalHook noConversion True
     (hookNilableLocalePerson ''Hello'' (VNilPtr hookLocalesT))
     [''EnUS'', ''EnAU'']
   = Returned (hookNilableLocalePerson ''Hello'' (VPtr (hookLocales ''Hello'' [])))"
  by (simp add: hook_eval)

section \<open>The unmarshal hook with flat locale keys\<close>

lemma fieldIndex_Some:
  "fieldIndex lfs k = Some n \<Longrightarrow> n < length lfs \<and> Name (fst (lfs ! n)) = k
     \<and> List.find (\<lambda>f. Name (fst f) = k) lfs = Some (lfs ! n)"
  by (induction lfs arbitrary: n) (auto split: if_splits option.splits)

lemma fieldIndex_None:
  "fieldIndex lfs k = None \<Longrightarrow> List.find (\<lambda>f. Name (fst f) = k) lfs = None"
  by (induction lfs) (auto split: if_splits option.splits)

lemma firstPreferred_spec:
  "map_option snd (firstPreferredLocaleValue lfs keys) = preferredNonZero lfs keys"
proof (induction keys)
  case Nil
  then show ?case by (simp add: preferredNonZero_def List.map_filter_simps)
next
  case (Cons k keys)
  show ?case
  proof (cases "fieldIndex lfs k")
    case None
    then show ?thesis using Cons fieldIndex_None [OF None]
      by (simp add: preferredNonZero_def List.map_filter_simps)
  next
    case (Some n)
    from fieldIndex_Some [OF Some]
    have f: "List.find (\<lambda>f. Name (fst f) = k) lfs = Some (lfs ! n)" by simp
    show ?thesis using Cons Some f
      by (simp add: preferredNonZero_def List.map_filter_simps)
  qed
qed

lemma firstPreferred_mem:
  "firstPreferredLocaleValue lfs keys = Some f \<Longrightarrow> f \<in> set lfs"
  by (induction keys) (auto dest!: fieldIndex_Some split: option.splits if_splits)

lemma baseFromFields_typed:
  "list_all (\<lambda>f. PkgPath (fst f) = [] \<and> typeOf (snd f) = typeOf b) lfs
   \<Longrightarrow> baseFromFields conv b lfs = Returned (firstNonZero lfs)"
  by (induction lfs) (auto simp: firstNonZero_def assignValue_def)

lemma setBaseFromLocale_typed:
  assumes "list_all (\<lambda>f. PkgPath (fst f) = [] \<and> typeOf (snd f) = typeOf b) lfs"
  shows "setBaseFromLocale conv b lfs keys = Returned (localeChoice lfs keys)"
proof (cases "firstPreferredLocaleValue lfs keys")
  case None
  then have "preferredNonZero lfs keys = None" using firstPreferred_spec [of lfs keys] by simp
  then show ?thesis using None baseFromFields_typed [OF assms]
    by (simp add: setBaseFromLocale_def localeChoice_def)
next
  case (Some f)
  then have p: "preferredNonZero lfs keys = Some (snd f)"
    using firstPreferred_spec [of lfs keys] by simp
  from firstPreferred_mem [OF Some] assms
  have "PkgPath (fst f) = []" "typeOf (snd f) = typeOf b" by (auto simp: list_all_iff)
  then show ?thesis using Some p
    by (simp add: setBaseFromLocale_def localeChoice_def assignValue_def)
qed

lemma extractFields_populated:
  "list_all (\<lambda>f. PkgPath (fst f) = []) lfs
   \<Longrightarrow> snd (extractFields conv props pfx lfs)
       = map (\<lambda>f. (fst f, populatedField conv props pfx f)) lfs"
  by (induction lfs) (auto simp: populatedField_def Let_def split: option.splits)

lemma extractFields_found:
  assumes "fieldIndex lfs k = Some n" and "PkgPath (fst (lfs ! n)) = []"
    and "props (flatKey pfx k) = Some (Some v)"
    and "typeOf v = typeOf (snd (lfs ! n)) \<or> conv v (typeOf (snd (lfs ! n))) \<noteq> None"
  shows "fst (extractFields conv props pfx lfs)"
  using assms
proof (induction lfs arbitrary: n)
  case Nil
  then show ?case by simp
next
  case (Cons f lfs)
  show ?case
  proof (cases "Name (fst f) = k")
    case True
    then show ?thesis using Cons.prems by (auto simp: Let_def split: option.splits)
  next
    case False
    then obtain m where m: "fieldIndex lfs k = Some m" "n = Suc m"
      using Cons.prems(1) by (auto split: option.splits)
    then have "fst (extractFields conv props pfx lfs)"
      using Cons.IH [of m] Cons.prems by simp
    then show ?thesis by (auto simp: Let_def split: option.splits)
  qed
qed

lemma hasAnyFlatKey_mem:
  "k \<in> set keys \<Longrightarrow> props (flatKey pfx k) \<noteq> None \<Longrightarrow> hasAnyFlatKey props pfx keys"
  by (induction keys) auto

lemma localeChoice_None_iff:
  "localeChoice lfs keys = None \<longleftrightarrow> list_all (\<lambda>f. isZero (snd f)) lfs"
proof
  assume "localeChoice lfs keys = None"
  then have "firstNonZero lfs = None" by (simp add: localeChoice_def split: option.splits)
  then show "list_all (\<lambda>f. isZero (snd f)) lfs"
    by (auto simp: firstNonZero_def find_None_iff list_all_iff)
next
  assume z: "list_all (\<lambda>f. isZero (snd f)) lfs"
  have "List.find (\<lambda>f. Name (fst f) = k) lfs = Some f \<Longrightarrow> isZero (snd f)" for k f
    using z by (auto simp: find_Some_iff list_all_iff)
  then have "preferredNonZero lfs keys = None"
    unfolding preferredNonZero_def
    by (induction keys) (auto simp: List.map_filter_simps split: option.splits)
  moreover have "firstNonZero lfs = None"
    using z by (auto simp: firstNonZero_def find_None_iff list_all_iff)
  ultimately show "localeChoice lfs keys = None" by (simp add: localeChoice_def)
qed

lemma localeBaseName_neq: "localeBaseName n = Some b \<Longrightarrow> b \<noteq> n"
  by (auto simp: localeBaseName_def hasSuffix_def split: if_splits)


lemma setField_nth_other: "i \<noteq> j \<Longrightarrow> setField fs i v ! j = fs ! j"
  by (simp add: setField_def)

lemma setField_nth_same: "i < length fs \<Longrightarrow> setField fs i v ! i = (fst (fs ! i), v)"
  by (simp add: setField_def)

lemma setField_twice: "setField (setField fs j v) j w = setField fs j w"
  by (cases "j < length fs") (simp_all add: setField_def list_update_beyond)

lemma populated_typed:
  assumes "\<And>v t v'. conv v t = Some v' \<Longrightarrow> typeOf v' = t"
  shows "typeOf (populatedField conv props pfx f) = typeOf (snd f)"
  using assms by (auto simp: populatedField_def split: option.splits)

text \<open>
  Claim C4.  Take a locale-bearing pair of a record: the exported companion field \<open>i\<close>,
  named after the exported base field \<open>j\<close>, where the companion is a struct, a pointer to
  one or a nil pointer to one, and its fields are exported and of the type of the base
  (through the base's pointer, if it is one).  Let the raw map hold, for a locale key \<open>k\<close>
  that names a companion field, a non-nil value under the flat key
  \<^verbatim>\<open><lcFirst base>_<lcFirst k>\<close>, of the companion field's type or convertible to it; when
  the companion is a nil pointer, let \<open>k\<close> be a key of the preference order.
  Then the iteration of the unmarshal hook for this pair leaves the companion (allocated
  if it was nil) with every field populated from its flat key's value, and overwrites the
  base (allocated if it was nil) with the first non-zero companion field in preference
  order, or else the first non-zero companion field in declaration order; when no
  companion field is non-zero the base stays as it was.
\<close>

theorem unmarshalStep_flat_keys_authoritative:
  assumes i: "i < length fs" and ei: "PkgPath (fst (fs ! i)) = []"
    and bn: "localeBaseName (Name (fst (fs ! i))) = Some baseName"
    and j: "fieldIndex fs baseName = Some j" and ej: "PkgPath (fst (fs ! j)) = []"
    and comp: "companionFields (snd (fs ! i)) = Some lfs"
    and typed: "list_all (\<lambda>f. PkgPath (fst f) = [] \<and> typeOf (snd f) = baseTarget (snd (fs ! j))) lfs"
    and conv: "\<And>v t v'. conv v t = Some v' \<Longrightarrow> typeOf v' = t"
    and k: "k \<in> set keys \<or> \<not> isNilPtr (snd (fs ! i))" and kn: "fieldIndex lfs k = Some n"
    and kv: "props (flatKey (lcFirst baseName) k) = Some (Some v)"
    and vt: "typeOf v = baseTarget (snd (fs ! j)) \<or> conv v (baseTarget (snd (fs ! j))) \<noteq> None"
  shows "unmarshalStep conv True (Some props) keys i fs
         = Returned
             (let lfs' = map (\<lambda>f. (fst f, populatedField conv props (lcFirst baseName) f)) lfs;
                  fs1 = setField fs i (withCompanionFields (snd (fs ! i)) lfs')
              in case localeChoice lfs' keys of
                   None \<Rightarrow> fs1
                 | Some b' \<Rightarrow> setField fs1 j (withBase (snd (fs ! j)) b'))"
proof -
  define pfx where "pfx = lcFirst baseName"
  define lfs' where "lfs' = map (\<lambda>f. (fst f, populatedField conv props pfx f)) lfs"
  define T where "T = baseTarget (snd (fs ! j))"
  define lv' where "lv' = withCompanionFields (snd (fs ! i)) lfs'"
  define fs1 where "fs1 = setField fs i lv'"
  from fieldIndex_Some [OF j] have jl: "j < length fs" and jn: "Name (fst (fs ! j)) = baseName"
    by auto
  from localeBaseName_neq [OF bn] jn have ij: "i \<noteq> j" by auto
  from fieldIndex_Some [OF kn] have nl: "n < length lfs" by simp
  from typed have ex: "list_all (\<lambda>f. PkgPath (fst f) = []) lfs"
    and ty: "list_all (\<lambda>f. typeOf (snd f) = T) lfs"
    by (auto simp: list_all_iff T_def)
  from nl typed have en: "PkgPath (fst (lfs ! n)) = []" and tn: "typeOf (snd (lfs ! n)) = T"
    by (auto simp: list_all_length T_def)
  have found: "fst (extractFields conv props pfx lfs)"
    using extractFields_found [OF kn en, of props pfx v conv] kv vt tn
    by (simp add: pfx_def T_def)
  have pop: "snd (extractFields conv props pfx lfs) = lfs'"
    using extractFields_populated [OF ex] by (simp add: lfs'_def)
  have any: "hasAnyFlatKey props pfx keys" if "isNilPtr (snd (fs ! i))"
    using hasAnyFlatKey_mem [of k keys props pfx] k kv that by (simp add: pfx_def)
  have typed': "list_all (\<lambda>f. PkgPath (fst f) = [] \<and> typeOf (snd f) = T) lfs'"
    using typed populated_typed [OF conv]
    by (auto simp: lfs'_def list_all_iff T_def)
  have sb: "setBaseFromLocale conv b lfs' keys = Returned (localeChoice lfs' keys)"
    if "typeOf b = T" for b
    using setBaseFromLocale_typed [of b lfs' conv keys] typed' that by simp
  have exq: "extractFlatLocaleKeys conv props baseName (snd (fs ! i)) keys = (True, lv')
             \<and> (\<exists>nm. lv' = VStruct nm lfs' \<or> lv' = VPtr (VStruct nm lfs'))"
  proof (cases "snd (fs ! i)" rule: companionFields.cases)
    case (1 nm ls)
    then show ?thesis using comp found pop
      by (simp add: extractFlatLocaleKeys_def pfx_def [symmetric] lv'_def)
  next
    case (2 nm ls)
    then show ?thesis using comp found pop
      by (simp add: extractFlatLocaleKeys_def pfx_def [symmetric] lv'_def)
  next
    case (3 nm tfs)
    then show ?thesis using comp found pop any
      by (simp add: extractFlatLocaleKeys_def pfx_def [symmetric] lv'_def)
  qed (use comp in simp_all)
  then obtain nm where ex1: "extractFlatLocaleKeys conv props baseName (snd (fs ! i)) keys
             = (True, lv')"
    and shape: "lv' = VStruct nm lfs' \<or> lv' = VPtr (VStruct nm lfs')"
    by blast
  have f1i: "snd (fs1 ! i) = lv'"
    using i by (simp add: fs1_def setField_nth_same)
  have f1j: "fs1 ! j = fs ! j"
    using ij by (simp add: fs1_def setField_nth_other)
  have f2i: "snd (setField fs1 j w ! i) = lv'" for w
    using ij f1i by (simp add: setField_nth_other)
  have zero: "isZero (VStruct nm lfs') \<longleftrightarrow> localeChoice lfs' keys = None"
    by (simp add: localeChoice_None_iff)
  have sync: "unmarshalSync conv keys True i j via b fsx
              = (case localeChoice lfs' keys of
                   None \<Rightarrow> Returned fsx
                 | Some b' \<Rightarrow> Returned (writeRef fsx j via b'))"
    if "typeOf b = T" and "snd (fsx ! i) = lv'" for via b fsx
    using shape that sb [OF that(1)]
    by (auto simp: unmarshalSync_def Let_def split: option.splits)
  have pre: "unmarshalStep conv True (Some props) keys i fs = R"
    if "(case snd (fs1 ! j) of
           VNilPtr t \<Rightarrow>
             if isZero (VStruct nm lfs') then Returned fs1
             else unmarshalSync conv keys True i j True (zeroOf t)
                    (setField fs1 j (VPtr (zeroOf t)))
         | VPtr b \<Rightarrow> unmarshalSync conv keys True i j True b fs1
         | b \<Rightarrow> unmarshalSync conv keys True i j False b fs1) = R" for R
    using ei bn j ej ex1 shape that f1i
    unfolding fs1_def unmarshalStep_def
    by (cases "snd (setField fs i lv' ! j)") (auto simp: Let_def)
  have goal: "(let lfs' = map (\<lambda>f. (fst f, populatedField conv props (lcFirst baseName) f)) lfs;
                  fs1 = setField fs i (withCompanionFields (snd (fs ! i)) lfs')
              in case localeChoice lfs' keys of
                   None \<Rightarrow> fs1
                 | Some b' \<Rightarrow> setField fs1 j (withBase (snd (fs ! j)) b'))
             = (case localeChoice lfs' keys of
                   None \<Rightarrow> fs1
                 | Some b' \<Rightarrow> setField fs1 j (withBase (snd (fs ! j)) b'))"
    by (simp add: Let_def lfs'_def pfx_def lv'_def fs1_def cong: option.case_cong)
  show ?thesis
    unfolding goal
  proof (rule pre, cases "snd (fs ! j)")
    case (VNilPtr t)
    then have tT: "typeOf (zeroOf t) = T" by (simp add: T_def typeOf_zeroOf)
    show "(case snd (fs1 ! j) of
           VNilPtr t \<Rightarrow>
             if isZero (VStruct nm lfs') then Returned fs1
             else unmarshalSync conv keys True i j True (zeroOf t)
                    (setField fs1 j (VPtr (zeroOf t)))
         | VPtr b \<Rightarrow> unmarshalSync conv keys True i j True b fs1
         | b \<Rightarrow> unmarshalSync conv keys True i j False b fs1)
       = Returned (case localeChoice lfs' keys of
                   None \<Rightarrow> fs1
                 | Some b' \<Rightarrow> setField fs1 j (withBase (snd (fs ! j)) b'))"
      using VNilPtr zero sync [OF tT f2i]
      by (auto simp: f1j writeRef_def setField_twice split: option.splits)
  next
    case (VPtr b)
    then have tT: "typeOf b = T" by (simp add: T_def)
    show "(case snd (fs1 ! j) of
           VNilPtr t \<Rightarrow>
             if isZero (VStruct nm lfs') then Returned fs1
             else unmarshalSync conv keys True i j True (zeroOf t)
                    (setField fs1 j (VPtr (zeroOf t)))
         | VPtr b \<Rightarrow> unmarshalSync conv keys True i j True b fs1
         | b \<Rightarrow> unmarshalSync conv keys True i j False b fs1)
       = Returned (case localeChoice lfs' keys of
                   None \<Rightarrow> fs1
                 | Some b' \<Rightarrow> setField fs1 j (withBase (snd (fs ! j)) b'))"
      using VPtr sync [OF tT f1i]
      by (auto simp: f1j writeRef_def split: option.splits)
  qed (use sync [OF _ f1i] in \<open>auto simp: f1j writeRef_def T_def split: option.splits\<close>)
qed

theorem unmarshalStep_flat_keys_authoritative_witness:
  "unmarshalStep noConversion True
     (Some [''name'' \<mapsto> Some (VString ''fallback''), ''name_enUS'' \<mapsto> Some (VString ''US''),
            ''name_enAU'' \<mapsto> Some (VString ''AU'')])
     [''EnAU'', ''EnUS''] 1
     [(jsonField ''Name'' ''name'', VString ''fallback''),
      (jsonField ''NameLocale'' ''nameLocale'', hookLocales [] [])]
   = Returned
       [(jsonField ''Name'' ''name'', VString ''AU''),
        (jsonField ''NameLocale'' ''nameLocale'', hookLocales ''US'' ''AU'')]
   \<and> localesUnmarshalHook noConversion True
     (Some [''name'' \<mapsto> Some (VString ''fallback''), ''name_enUS'' \<mapsto> Some (VString ''US''),
            ''name_enAU'' \<mapsto> Some (VString ''AU'')])
     (hookLocalizedPerson ''fallback'' (hookLocales [] []))
     [''EnAU'', ''EnUS'']
   = Returned (hookLocalizedPerson ''AU'' (hookLocales ''US'' ''AU''))"
proof -
  have step: "unmarshalStep noConversion True
     (Some [''name'' \<mapsto> Some (VString ''fallback''), ''name_enUS'' \<mapsto> Some (VString ''US''),
            ''name_enAU'' \<mapsto> Some (VString ''AU'')])
     [''EnAU'', ''EnUS''] 1
     [(jsonField ''Name'' ''name'', VString ''fallback''),
      (jsonField ''NameLocale'' ''nameLocale'', hookLocales [] [])]
   = Returned
       (let lfs' = map (\<lambda>f. (fst f,
                      populatedField noConversion
                        [''name'' \<mapsto> Some (VString ''fallback''),
                         ''name_enUS'' \<mapsto> Some (VString ''US''),
                         ''name_enAU'' \<mapsto> Some (VString ''AU'')]
                        (lcFirst ''Name'') f))
                    [(jsonField ''EnUS'' ''enUS'', VString []),
                     (jsonField ''EnAU'' ''enAU'', VString [])];
            fs1 = setField
                    [(jsonField ''Name'' ''name'', VString ''fallback''),
                     (jsonField ''NameLocale'' ''nameLocale'', hookLocales [] [])] 1
                    (withCompanionFields
                       (snd ([(jsonField ''Name'' ''name'', VString ''fallback''),
                              (jsonField ''NameLocale'' ''nameLocale'', hookLocales [] [])] ! 1))
                       lfs')
        in case localeChoice lfs' [''EnAU'', ''EnUS''] of
             None \<Rightarrow> fs1
           | Some b' \<Rightarrow>
               setField fs1 0
                 (withBase
                    (snd ([(jsonField ''Name'' ''name'', VString ''fallback''),
                           (jsonField ''NameLocale'' ''nameLocale'', hookLocales [] [])] ! 0))
                    b'))"
    by (rule unmarshalStep_flat_keys_authoritative
          [where k = "''EnAU''" and n = 1 and v = "VString ''AU''"])
       (simp_all add: hook_eval)
  have "unmarshalStep noConversion True
     (Some [''name'' \<mapsto> Some (VString ''fallback''), ''name_enUS'' \<mapsto> Some (VString ''US''),
            ''name_enAU'' \<mapsto> Some (VString ''AU'')])
     [''EnAU'', ''EnUS''] 1
     [(jsonField ''Name'' ''name'', VString ''fallback''),
      (jsonField ''NameLocale'' ''nameLocale'', hookLocales [] [])]
   = Returned
       [(jsonField ''Name'' ''name'', VString ''AU''),
        (jsonField ''NameLocale'' ''nameLocale'', hookLocales ''US'' ''AU'')]"
    unfolding step
    by (simp add: hook_eval populatedField_def localeChoice_def preferredNonZero_def
        firstNonZero_def List.map_filter_simps)
  moreover have "localesUnmarshalHook noConversion True
     (Some [''name'' \<mapsto> Some (VString ''fallback''), ''name_enUS'' \<mapsto> Some (VString ''US''),
            ''name_enAU'' \<mapsto> Some (VString ''AU'')])
     (hookLocalizedPerson ''fallback'' (hookLocales [] []))
     [''EnAU'', ''EnUS'']
   = Returned (hookLocalizedPerson ''AU'' (hookLocales ''US'' ''AU''))"
    by (simp add: hook_eval)
  ultimately show ?thesis by simp
qed

end
